theory Spec2Isabelle
  imports Complex_Main "HOL-Library.AList"
begin

section \<open>JavaScript numbers\<close>

text \<open>
  A JavaScript \<open>number\<close> is an IEEE double: a finite value, one of the two infinities, or
  NaN. Finite values are modelled as exact rationals (rounding and the sign of zero are
  not modelled); the operations below are the ones \<open>UnitView.missileReadinesss\<close> uses.
\<close>

datatype number = Fin rat | PosInfinity | NegInfinity | NaN

fun js_add :: "number \<Rightarrow> number \<Rightarrow> number" where
  "js_add (Fin a) (Fin b) = Fin (a + b)"
| "js_add NaN _ = NaN"
| "js_add _ NaN = NaN"
| "js_add PosInfinity NegInfinity = NaN"
| "js_add NegInfinity PosInfinity = NaN"
| "js_add PosInfinity _ = PosInfinity"
| "js_add _ PosInfinity = PosInfinity"
| "js_add NegInfinity _ = NegInfinity"
| "js_add _ NegInfinity = NegInfinity"

fun js_div :: "number \<Rightarrow> number \<Rightarrow> number" where
  "js_div (Fin a) (Fin b) =
     (if b = 0 then (if a = 0 then NaN else if 0 < a then PosInfinity else NegInfinity)
      else Fin (a / b))"
| "js_div NaN _ = NaN"
| "js_div _ NaN = NaN"
| "js_div (Fin a) _ = Fin 0"
| "js_div PosInfinity (Fin b) = (if 0 \<le> b then PosInfinity else NegInfinity)"
| "js_div NegInfinity (Fin b) = (if 0 \<le> b then NegInfinity else PosInfinity)"
| "js_div _ _ = NaN"

definition num :: "int \<Rightarrow> number" where
  "num i = Fin (of_int i)"

text \<open>\<open>0 \<le> x \<and> x \<le> 1\<close> as JavaScript compares: false for NaN and outside the interval.\<close>

fun in_unit_interval :: "number \<Rightarrow> bool" where
  "in_unit_interval (Fin a) = (0 \<le> a \<and> a \<le> 1)"
| "in_unit_interval _ = False"

section \<open>The client world view (GameView.ts)\<close>

type_synonym TileRef = nat
type_synonym PlayerID = string
type_synonym ClientID = string
type_synonym Tick = int

text \<open>The members of the \<open>UnitType\<close> enumeration that the sources name.\<close>

datatype UnitType =
  TransportShip | Warship | TradeShip | City | Port | DefensePost
  | SAMLauncher | MissileSilo | AtomBomb

text \<open>
  The errors the modelled methods throw, by their messages: \<open>player id ... not found\<close>,
  \<open>small id ... not found\<close> and \<open>lastUpdate.updates not initialized\<close>.
\<close>

datatype error = PlayerIdNotFound PlayerID | SmallIdNotFound nat | UpdatesNotInitialized

text \<open>
  \<open>UnitUpdate\<close> and \<open>PlayerUpdate\<close>: the fields of the delta records that the modelled
  methods read.
\<close>

record UnitUpdate =
  unit_id :: nat
  unitType :: UnitType
  ownerID :: nat
  pos :: TileRef
  isActive :: bool
  level :: int
  missileTimerQueue :: "int list"

record PlayerUpdate =
  player_id :: PlayerID
  smallID :: nat
  clientID :: "ClientID option"
  player_name :: string

record GameUpdates =
  playerUpdates :: "PlayerUpdate list"
  unitUpdates :: "UnitUpdate list"

text \<open>
  \<open>GameUpdateViewData\<close>: \<open>updates\<close> is \<open>None\<close> for \<open>null\<close>; a packed tile update is the
  bigint the map decodes.
\<close>

record GameUpdateViewData =
  tick :: Tick
  updates :: "GameUpdates option"
  packedTileUpdates :: "nat list"

record Config =
  SAMCooldown :: int
  SiloCooldown :: int

text \<open>
  The map collaborator (\<open>GameMap\<close>), taken as a parameter: the coordinates of a tile and
  the tile a packed update decodes to.
\<close>

record GameMap =
  map_x :: "TileRef \<Rightarrow> nat"
  map_y :: "TileRef \<Rightarrow> nat"
  updateTile :: "nat \<Rightarrow> TileRef"

subsection \<open>UnitView\<close>

record UnitView =
  wasUpdated :: bool
  lastPos :: "TileRef list"
  createdAt :: Tick
  data :: UnitUpdate

definition new_UnitView :: "Tick \<Rightarrow> UnitUpdate \<Rightarrow> UnitView" where
  "new_UnitView now d =
     \<lparr> wasUpdated = True, lastPos = [pos d], createdAt = now, data = d \<rparr>"

definition tile :: "UnitView \<Rightarrow> TileRef" where
  "tile u = pos (data u)"

definition lastTile :: "UnitView \<Rightarrow> TileRef" where
  "lastTile u = (case lastPos u of [] \<Rightarrow> pos (data u) | t # _ \<Rightarrow> t)"

definition UnitView_update :: "UnitUpdate \<Rightarrow> UnitView \<Rightarrow> UnitView" where
  "UnitView_update d u = u \<lparr> lastPos := lastPos u @ [pos d], wasUpdated := True, data := d \<rparr>"

definition UnitView_id :: "UnitView \<Rightarrow> nat" where
  "UnitView_id u = unit_id (data u)"

definition UnitView_isActive :: "UnitView \<Rightarrow> bool" where
  "UnitView_isActive u = isActive (data u)"

definition UnitView_type :: "UnitView \<Rightarrow> UnitType" where
  "UnitView_type u = unitType (data u)"

text \<open>
  \<open>missileReadinesss\<close>, with the view's current tick and configuration passed in
  (\<open>this.gameView.ticks()\<close>, \<open>this.gameView.config()\<close>).
\<close>

definition missileReadinesss :: "Config \<Rightarrow> Tick \<Rightarrow> UnitView \<Rightarrow> number" where
  "missileReadinesss cfg now u =
     (let maxMissiles = level (data u);
          missilesReloading = int (length (missileTimerQueue (data u)))
      in if missilesReloading = 0 then Fin 1
         else
           let missilesReady = maxMissiles - missilesReloading
           in if missilesReady = 0 \<and> 1 < maxMissiles then Fin 0
              else
                let readiness = js_div (num missilesReady) (num maxMissiles);
                    cooldownDuration =
                      (if unitType (data u) = SAMLauncher then SAMCooldown cfg
                       else SiloCooldown cfg)
                in foldl
                     (\<lambda>readiness cooldown.
                        let cooldownProgress = now - cooldown;
                            cooldownRatio = js_div (num cooldownProgress) (num cooldownDuration);
                            adjusted = js_div cooldownRatio (num maxMissiles)
                        in js_add readiness adjusted)
                     readiness (missileTimerQueue (data u)))"

subsection \<open>PlayerView\<close>

text \<open>
  The mirror of a player: its latest update. The name data, the cosmetics and the cached
  anonymous name are display data that no modelled method reads, and are left out.
\<close>

record PlayerView =
  pdata :: PlayerUpdate

subsection \<open>The spatial unit index, as the view uses it\<close>

text \<open>
  \<open>UnitGrid\<close> (src/core/game/UnitGrid.ts) is not among the sources. The view calls three
  of its methods, each on a unit it reconciles, and nothing else of it, so the index is a
  parameter of the view: a state of some type \<open>'g\<close> and the three methods on it.
\<close>

record 'g UnitGridOps =
  addUnit :: "UnitView \<Rightarrow> 'g \<Rightarrow> 'g"
  removeUnit :: "UnitView \<Rightarrow> 'g \<Rightarrow> 'g"
  updateUnitCell :: "UnitView \<Rightarrow> 'g \<Rightarrow> 'g"

text \<open>
  What the methods promise (spec 4.1), for a reading \<open>holds\<close> of which unit identities an
  index state holds: \<open>removeUnit\<close> leaves the unit out of the index, and a method called
  for one unit does not put another unit in.
\<close>

definition index_contract :: "'g UnitGridOps \<Rightarrow> ('g \<Rightarrow> nat \<Rightarrow> bool) \<Rightarrow> bool" where
  "index_contract grid holds =
     ((\<forall>u g. \<not> holds (removeUnit grid u g) (UnitView_id u)) \<and>
      (\<forall>u g i. i \<noteq> UnitView_id u \<and> \<not> holds g i \<longrightarrow>
         \<not> holds (addUnit grid u g) i \<and> \<not> holds (removeUnit grid u g) i \<and>
         \<not> holds (updateUnitCell grid u g) i))"

subsection \<open>GameView\<close>

text \<open>
  The JavaScript \<open>Map\<close>s that are enumerated (\<open>_players\<close>, \<open>_units\<close>) are association
  lists in insertion order: \<open>AList.update\<close> keeps the position of a key that is present
  and appends a new one, as \<open>Map.set\<close> does. \<open>smallIDToID\<close> is only looked up.
\<close>

record 'g GameView =
  lastUpdate :: "GameUpdateViewData option"
  smallIDToID :: "nat \<rightharpoonup> PlayerID"
  players_map :: "(PlayerID \<times> PlayerView) list"
  units_map :: "(nat \<times> UnitView) list"
  updatedTiles :: "TileRef list"
  unitGrid :: "'g"
  toDelete :: "nat list"

definition new_GameView :: "'g \<Rightarrow> 'g GameView" where
  "new_GameView g =
     \<lparr> lastUpdate = None, smallIDToID = Map.empty, players_map = [], units_map = [],
       updatedTiles = [], unitGrid = g, toDelete = [] \<rparr>"

definition ticks :: "'g GameView \<Rightarrow> Tick" where
  "ticks gv = (case lastUpdate gv of None \<Rightarrow> 0 | Some gu \<Rightarrow> tick gu)"

text \<open>The result of \<open>playerBySmallID\<close>: a player's mirror or the \<open>TerraNullius\<close> sentinel.\<close>

datatype owner = Player PlayerView | TerraNullius

definition player :: "'g GameView \<Rightarrow> PlayerID \<Rightarrow> error + PlayerView" where
  "player gv pid =
     (case map_of (players_map gv) pid of
        None \<Rightarrow> Inl (PlayerIdNotFound pid)
      | Some p \<Rightarrow> Inr p)"

definition playerBySmallID :: "'g GameView \<Rightarrow> nat \<Rightarrow> error + owner" where
  "playerBySmallID gv i =
     (if i = 0 then Inr TerraNullius
      else case smallIDToID gv i of
             None \<Rightarrow> Inl (SmallIdNotFound i)
           | Some playerId \<Rightarrow>
               (case player gv playerId of Inl e \<Rightarrow> Inl e | Inr p \<Rightarrow> Inr (Player p)))"

definition hasPlayer :: "'g GameView \<Rightarrow> PlayerID \<Rightarrow> bool" where
  "hasPlayer gv pid = False"

definition units :: "'g GameView \<Rightarrow> UnitType list \<Rightarrow> UnitView list" where
  "units gv types =
     (if types = [] then filter UnitView_isActive (map snd (units_map gv))
      else filter (\<lambda>u. UnitView_isActive u \<and> UnitView_type u \<in> set types)
             (map snd (units_map gv)))"

definition unit :: "'g GameView \<Rightarrow> nat \<Rightarrow> UnitView option" where
  "unit gv i = map_of (units_map gv) i"

text \<open>The three loops of \<open>GameView.update\<close>, one step each.\<close>

definition apply_PlayerUpdate :: "'g GameView \<Rightarrow> PlayerUpdate \<Rightarrow> 'g GameView" where
  "apply_PlayerUpdate gv pu =
     gv \<lparr> smallIDToID := (smallIDToID gv)(smallID pu \<mapsto> player_id pu),
          players_map :=
            (case map_of (players_map gv) (player_id pu) of
               Some p \<Rightarrow> AList.update (player_id pu) (p \<lparr> pdata := pu \<rparr>) (players_map gv)
             | None \<Rightarrow> AList.update (player_id pu) \<lparr> pdata = pu \<rparr> (players_map gv)) \<rparr>"

definition reset_UnitView :: "UnitView \<Rightarrow> UnitView" where
  "reset_UnitView u =
     u \<lparr> wasUpdated := False,
         lastPos := (if lastPos u = [] then [] else [last (lastPos u)]) \<rparr>"

definition apply_UnitUpdate :: "'g UnitGridOps \<Rightarrow> 'g GameView \<Rightarrow> UnitUpdate \<Rightarrow> 'g GameView" where
  "apply_UnitUpdate grid gv upd =
     (let (u, gv1) =
            (case map_of (units_map gv) (unit_id upd) of
               Some u0 \<Rightarrow>
                 (let u1 = UnitView_update upd u0
                  in (u1, gv \<lparr> units_map := AList.update (unit_id upd) u1 (units_map gv) \<rparr>))
             | None \<Rightarrow>
                 (let u1 = new_UnitView (ticks gv) upd
                  in (u1, gv \<lparr> units_map := AList.update (unit_id upd) u1 (units_map gv),
                               unitGrid := addUnit grid u1 (unitGrid gv) \<rparr>)));
          gv2 =
            (if \<not> isActive upd then gv1 \<lparr> unitGrid := removeUnit grid u (unitGrid gv1) \<rparr>
             else if tile u \<noteq> lastTile u
               then gv1 \<lparr> unitGrid := updateUnitCell grid u (unitGrid gv1) \<rparr>
             else gv1)
      in if \<not> UnitView_isActive u
         then gv2 \<lparr> toDelete := List.insert (UnitView_id u) (toDelete gv2) \<rparr>
         else gv2)"

text \<open>
  \<open>GameView.update\<close>. The result is the exception thrown, if any, and the view as the
  call leaves it: the throw for \<open>updates === null\<close> comes after the cleanup pass and the
  tile updates have been applied.
\<close>

definition update ::
  "'g UnitGridOps \<Rightarrow> GameMap \<Rightarrow> GameUpdateViewData \<Rightarrow> 'g GameView \<Rightarrow> error option \<times> 'g GameView" where
  "update grid gm gu gv =
     (let gv1 = gv \<lparr> units_map := foldl (\<lambda>m i. AList.delete i m) (units_map gv) (toDelete gv),
                     toDelete := [] \<rparr>;
          gv2 = gv1 \<lparr> lastUpdate := Some gu,
                      updatedTiles := map (updateTile gm) (packedTileUpdates gu) \<rparr>
      in case updates gu of
           None \<Rightarrow> (Some UpdatesNotInitialized, gv2)
         | Some ups \<Rightarrow>
             (let gv3 = foldl apply_PlayerUpdate gv2 (playerUpdates ups);
                  gv4 = gv3 \<lparr> units_map := map (\<lambda>(i, u). (i, reset_UnitView u)) (units_map gv3) \<rparr>
              in (None, foldl (apply_UnitUpdate grid) gv4 (unitUpdates ups))))"

text \<open>A sequence of deltas applied in order; the view survives an update that throws.\<close>

fun run_updates ::
  "'g UnitGridOps \<Rightarrow> GameMap \<Rightarrow> 'g GameView \<Rightarrow> GameUpdateViewData list \<Rightarrow> 'g GameView" where
  "run_updates grid gm gv [] = gv"
| "run_updates grid gm gv (gu # gus) = run_updates grid gm (snd (update grid gm gu gv)) gus"



subsection \<open>Example inputs\<close>

text \<open>
  A map 200 tiles wide, an index that is the set of the identities it holds, a view that
  starts with this index empty, a player update and a delta that carries it.
\<close>

definition gm0 :: GameMap where
  "gm0 = \<lparr> map_x = (\<lambda>t. t mod 200), map_y = (\<lambda>t. t div 200), updateTile = (\<lambda>tu. tu) \<rparr>"

definition id_index :: "nat set UnitGridOps" where
  "id_index =
     \<lparr> addUnit = (\<lambda>u g. insert (UnitView_id u) g), removeUnit = (\<lambda>u g. g - {UnitView_id u}),
       updateUnitCell = (\<lambda>u g. insert (UnitView_id u) g) \<rparr>"

definition gv0 :: "nat set GameView" where
  "gv0 = new_GameView {}"

definition pu1 :: PlayerUpdate where
  "pu1 = \<lparr> player_id = ''p1'', smallID = 1, clientID = Some ''c1'', player_name = ''one'' \<rparr>"

definition gu_players :: GameUpdateViewData where
  "gu_players =
     \<lparr> tick = 1, updates = Some \<lparr> playerUpdates = [pu1], unitUpdates = [] \<rparr>,
       packedTileUpdates = [] \<rparr>"

text \<open>
  A level-2 SAM launcher with one charge reloading since tick 0, deltas that carry given
  unit records, a view in which the launcher was created and then destroyed, and a view in
  which it was created and not mentioned again by the delta of tick 150.
\<close>

definition unit7 :: "bool \<Rightarrow> UnitUpdate" where
  "unit7 a =
     \<lparr> unit_id = 7, unitType = SAMLauncher, ownerID = 1, pos = 0, isActive = a,
       level = 2, missileTimerQueue = [0] \<rparr>"

definition gu_units :: "Tick \<Rightarrow> UnitUpdate list \<Rightarrow> GameUpdateViewData" where
  "gu_units t us =
     \<lparr> tick = t, updates = Some \<lparr> playerUpdates = [], unitUpdates = us \<rparr>,
       packedTileUpdates = [] \<rparr>"


definition cfg75 :: Config where
  "cfg75 = \<lparr> SAMCooldown = 75, SiloCooldown = 75 \<rparr>"

definition gv_stale :: "nat set GameView" where
  "gv_stale = run_updates id_index gm0 gv0 [gu_units 0 [unit7 True], gu_units 150 []]"

section \<open>The intent and turn schemas (Schemas.ts)\<close>

text \<open>
  The values a schema is run on: what \<open>JSON.parse\<close> or a client hands over. A missing
  property reads as \<open>undefined\<close>. Strings are lists of characters.
\<close>

datatype jsval =
  JUndefined | JNull | JBoolean bool | JNumber number | JBigInt int | JString string
  | JArray "jsval list" | JObject "(string \<times> jsval) list"

text \<open>The issue codes of a failed validation.\<close>

datatype issue =
  invalid_type | invalid_value | invalid_format | too_small | too_big | invalid_union | custom

text \<open>
  The schema combinators that Schemas.ts builds its schemas from, with the behaviour the
  validation library (zod 4) documents: \<open>z.string()\<close> and \<open>z.number()\<close> with their checks,
  \<open>z.bigint()\<close>, \<open>z.boolean()\<close>, \<open>z.literal\<close>, \<open>z.enum\<close>, \<open>.nullable()\<close>, \<open>.optional()\<close>,
  \<open>.array()\<close>, \<open>z.object\<close>, \<open>z.union\<close>, \<open>z.discriminatedUnion\<close> and \<open>.refine\<close>.
\<close>

datatype schema =
  ZString "(string \<Rightarrow> issue option) list"
  | ZNumber "(rat \<Rightarrow> issue option) list"
  | ZBigInt
  | ZBoolean
  | ZLiteral jsval
  | ZEnum "string list"
  | ZNullable schema
  | ZOptional schema
  | ZArray schema
  | ZObject "(string \<times> schema) list"
  | ZUnion "schema list"
  | ZDiscriminatedUnion string "schema list"
  | ZRefine schema "jsval \<Rightarrow> bool"

text \<open>Checks run in order; the first issue is the one reported.\<close>

fun run_checks :: "('a \<Rightarrow> issue option) list \<Rightarrow> 'a \<Rightarrow> issue option" where
  "run_checks [] x = None"
| "run_checks (c # cs) x = (case c x of Some e \<Rightarrow> Some e | None \<Rightarrow> run_checks cs x)"

text \<open>\<open>input[key]\<close>: \<open>undefined\<close> for a key the object does not have.\<close>

definition get_prop :: "(string \<times> jsval) list \<Rightarrow> string \<Rightarrow> jsval" where
  "get_prop kvs k = (case map_of kvs k of None \<Rightarrow> JUndefined | Some v \<Rightarrow> v)"

fun collect :: "(issue + 'a) list \<Rightarrow> issue + 'a list" where
  "collect [] = Inr []"
| "collect (Inl e # rs) = Inl e"
| "collect (Inr x # rs) = (case collect rs of Inl e \<Rightarrow> Inl e | Inr xs \<Rightarrow> Inr (x # xs))"

fun first_success :: "(issue + 'a) list \<Rightarrow> issue + 'a" where
  "first_success [] = Inl invalid_union"
| "first_success (Inr x # rs) = Inr x"
| "first_success (Inl e # rs) = first_success rs"

text \<open>The literal that an option of a discriminated union declares for the discriminator.\<close>

fun discriminator_of :: "string \<Rightarrow> schema \<Rightarrow> jsval option" where
  "discriminator_of d (ZObject shape) =
     (case map_of shape d of Some (ZLiteral l) \<Rightarrow> Some l | _ \<Rightarrow> None)"
| "discriminator_of d _ = None"

text \<open>
  \<open>safeParse\<close>: the parsed value, or the first issue. \<open>z.number()\<close> accepts finite
  numbers only. \<open>z.object\<close> accepts a plain object, parses every key of its shape and
  strips the keys it does not know. \<open>z.discriminatedUnion\<close> reads the discriminator of
  the input and runs the one option that declares this literal; with no such option the
  input is invalid.
\<close>

fun safeParse :: "schema \<Rightarrow> jsval \<Rightarrow> issue + jsval" where
  "safeParse (ZString checks) v =
     (case v of
        JString s \<Rightarrow> (case run_checks checks s of Some e \<Rightarrow> Inl e | None \<Rightarrow> Inr v)
      | _ \<Rightarrow> Inl invalid_type)"
| "safeParse (ZNumber checks) v =
     (case v of
        JNumber (Fin r) \<Rightarrow> (case run_checks checks r of Some e \<Rightarrow> Inl e | None \<Rightarrow> Inr v)
      | _ \<Rightarrow> Inl invalid_type)"
| "safeParse ZBigInt v = (case v of JBigInt _ \<Rightarrow> Inr v | _ \<Rightarrow> Inl invalid_type)"
| "safeParse ZBoolean v = (case v of JBoolean _ \<Rightarrow> Inr v | _ \<Rightarrow> Inl invalid_type)"
| "safeParse (ZLiteral l) v = (if v = l then Inr v else Inl invalid_value)"
| "safeParse (ZEnum vs) v =
     (case v of JString s \<Rightarrow> (if s \<in> set vs then Inr v else Inl invalid_value)
      | _ \<Rightarrow> Inl invalid_value)"
| "safeParse (ZNullable s) v = (if v = JNull then Inr JNull else safeParse s v)"
| "safeParse (ZOptional s) v = (if v = JUndefined then Inr JUndefined else safeParse s v)"
| "safeParse (ZArray s) v =
     (case v of
        JArray xs \<Rightarrow>
          (case collect (map (safeParse s) xs) of Inl e \<Rightarrow> Inl e | Inr ys \<Rightarrow> Inr (JArray ys))
      | _ \<Rightarrow> Inl invalid_type)"
| "safeParse (ZObject shape) v =
     (case v of
        JObject kvs \<Rightarrow>
          (case collect (map (\<lambda>ks. case safeParse (snd ks) (get_prop kvs (fst ks)) of
                                      Inl e \<Rightarrow> Inl e | Inr r \<Rightarrow> Inr (fst ks, r)) shape) of
             Inl e \<Rightarrow> Inl e
           | Inr out \<Rightarrow>
               Inr (JObject (filter (\<lambda>(k, r). r \<noteq> JUndefined \<or> k \<in> fst ` set kvs) out)))
      | _ \<Rightarrow> Inl invalid_type)"
| "safeParse (ZUnion opts) v = first_success (map (\<lambda>s. safeParse s v) opts)"
| "safeParse (ZDiscriminatedUnion d opts) v =
     (case v of
        JObject kvs \<Rightarrow>
          (case find (\<lambda>sr. discriminator_of d (fst sr) = Some (get_prop kvs d))
                  (map (\<lambda>s. (s, safeParse s v)) opts) of
             Some sr \<Rightarrow> snd sr
           | None \<Rightarrow> Inl invalid_union)
      | _ \<Rightarrow> Inl invalid_type)"
| "safeParse (ZRefine s ok) v =
     (case safeParse s v of Inl e \<Rightarrow> Inl e | Inr r \<Rightarrow> if ok r then Inr r else Inl custom)"


text \<open>The checks \<open>.regex\<close>, \<open>.length\<close>, \<open>.max\<close> (strings), \<open>.nonnegative\<close> and \<open>.max\<close> (numbers).\<close>

definition regex :: "(string \<Rightarrow> bool) \<Rightarrow> string \<Rightarrow> issue option" where
  "regex matches s = (if matches s then None else Some invalid_format)"

definition str_length :: "nat \<Rightarrow> string \<Rightarrow> issue option" where
  "str_length n s = (if length s < n then Some too_small else if n < length s then Some too_big else None)"

definition str_max :: "nat \<Rightarrow> string \<Rightarrow> issue option" where
  "str_max n s = (if n < length s then Some too_big else None)"

definition nonnegative :: "rat \<Rightarrow> issue option" where
  "nonnegative r = (if r < 0 then Some too_small else None)"

definition num_max :: "rat \<Rightarrow> rat \<Rightarrow> issue option" where
  "num_max m r = (if m < r then Some too_big else None)"

text \<open>\<open>.extend\<close>: the shape with the given keys overridden or appended.\<close>

fun ZObject_extend :: "schema \<Rightarrow> (string \<times> schema) list \<Rightarrow> schema" where
  "ZObject_extend (ZObject shape) ext = ZObject (foldl (\<lambda>sh (k, s). AList.update k s sh) shape ext)"
| "ZObject_extend s ext = s"

text \<open>
  What Schemas.ts imports from files that are not among the sources, taken as parameters:
  the country codes, the quick-chat keys, the length of the emoji table, the values of the
  \<open>PlayerType\<close> and \<open>UnitType\<close> enumerations, the \<open>AllPlayers\<close> constant, whether
  \<open>PatternDecoder\<close> accepts a string and whether a string is base64url. The regular
  expression of \<open>SafeString\<close> ranges over Unicode and is a parameter as well.
\<close>

record SchemaEnv =
  SafeString_matches :: "string \<Rightarrow> bool"
  countryCodes :: "string list"
  base64url_ok :: "string \<Rightarrow> bool"
  PatternDecoder_ok :: "string \<Rightarrow> bool"
  quickChatKeys :: "string list"
  flattenedEmojiTable_length :: nat
  PlayerType_values :: "string list"
  UnitType_values :: "string list"
  AllPlayers :: string

text \<open>The character class \<open>[a-zA-Z0-9]\<close>.\<close>

definition alnum :: "char \<Rightarrow> bool" where
  "alnum c =
     (let n = (of_char c :: nat)
      in (48 \<le> n \<and> n \<le> 57) \<or> (65 \<le> n \<and> n \<le> 90) \<or> (97 \<le> n \<and> n \<le> 122))"

definition SafeString :: "SchemaEnv \<Rightarrow> schema" where
  "SafeString env = ZString [regex (SafeString_matches env), str_max 1000]"

definition EmojiSchema :: "SchemaEnv \<Rightarrow> schema" where
  "EmojiSchema env =
     ZNumber [nonnegative, num_max (of_int (int (flattenedEmojiTable_length env) - 1))]"

definition ID :: schema where
  "ID = ZString [regex (\<lambda>s. s \<noteq> [] \<and> (\<forall>c \<in> set s. alnum c)), str_length 8]"

definition UsernameSchema :: "SchemaEnv \<Rightarrow> schema" where
  "UsernameSchema env = SafeString env"

definition FlagSchema :: "SchemaEnv \<Rightarrow> schema" where
  "FlagSchema env =
     ZRefine (ZOptional (ZString [str_max 128]))
       (\<lambda>val. case val of
                 JUndefined \<Rightarrow> True
               | JString s \<Rightarrow> s = [] \<or> take 1 s = ''!'' \<or> s \<in> set (countryCodes env)
               | _ \<Rightarrow> False)"

definition RequiredPatternSchema :: "SchemaEnv \<Rightarrow> schema" where
  "RequiredPatternSchema env =
     ZRefine (ZString [str_max 1403, regex (base64url_ok env)])
       (\<lambda>val. case val of JString s \<Rightarrow> PatternDecoder_ok env s | _ \<Rightarrow> False)"

definition PatternSchema :: "SchemaEnv \<Rightarrow> schema" where
  "PatternSchema env = ZOptional (RequiredPatternSchema env)"

definition QuickChatKeySchema :: "SchemaEnv \<Rightarrow> schema" where
  "QuickChatKeySchema env = ZEnum (quickChatKeys env)"

definition PlayerTypeSchema :: "SchemaEnv \<Rightarrow> schema" where
  "PlayerTypeSchema env = ZEnum (PlayerType_values env)"

definition BaseIntentSchema :: schema where
  "BaseIntentSchema = ZObject [(''clientID'', ID)]"

definition AllianceExtensionIntentSchema :: schema where
  "AllianceExtensionIntentSchema =
     ZObject_extend BaseIntentSchema
       [(''type'', ZLiteral (JString ''allianceExtension'')), (''recipient'', ID)]"

definition AttackIntentSchema :: schema where
  "AttackIntentSchema =
     ZObject_extend BaseIntentSchema
       [(''type'', ZLiteral (JString ''attack'')), (''targetID'', ZNullable ID),
        (''troops'', ZNullable (ZNumber [nonnegative]))]"

definition SpawnIntentSchema :: "SchemaEnv \<Rightarrow> schema" where
  "SpawnIntentSchema env =
     ZObject_extend BaseIntentSchema
       [(''type'', ZLiteral (JString ''spawn'')), (''name'', UsernameSchema env),
        (''flag'', FlagSchema env), (''pattern'', PatternSchema env),
        (''playerType'', PlayerTypeSchema env), (''tile'', ZNumber [])]"

definition BoatAttackIntentSchema :: schema where
  "BoatAttackIntentSchema =
     ZObject_extend BaseIntentSchema
       [(''type'', ZLiteral (JString ''boat'')), (''targetID'', ZNullable ID),
        (''troops'', ZNumber [nonnegative]), (''dst'', ZNumber []),
        (''src'', ZNullable (ZNumber []))]"

definition AllianceRequestIntentSchema :: schema where
  "AllianceRequestIntentSchema =
     ZObject_extend BaseIntentSchema
       [(''type'', ZLiteral (JString ''allianceRequest'')), (''recipient'', ID)]"

definition AllianceRequestReplyIntentSchema :: schema where
  "AllianceRequestReplyIntentSchema =
     ZObject_extend BaseIntentSchema
       [(''type'', ZLiteral (JString ''allianceRequestReply'')), (''requestor'', ID),
        (''accept'', ZBoolean)]"

definition BreakAllianceIntentSchema :: schema where
  "BreakAllianceIntentSchema =
     ZObject_extend BaseIntentSchema
       [(''type'', ZLiteral (JString ''breakAlliance'')), (''recipient'', ID)]"

definition TargetPlayerIntentSchema :: schema where
  "TargetPlayerIntentSchema =
     ZObject_extend BaseIntentSchema
       [(''type'', ZLiteral (JString ''targetPlayer'')), (''target'', ID)]"

definition EmojiIntentSchema :: "SchemaEnv \<Rightarrow> schema" where
  "EmojiIntentSchema env =
     ZObject_extend BaseIntentSchema
       [(''type'', ZLiteral (JString ''emoji'')),
        (''recipient'', ZUnion [ID, ZLiteral (JString (AllPlayers env))]),
        (''emoji'', EmojiSchema env)]"

definition EmbargoIntentSchema :: schema where
  "EmbargoIntentSchema =
     ZObject_extend BaseIntentSchema
       [(''type'', ZLiteral (JString ''embargo'')), (''targetID'', ID),
        (''action'', ZUnion [ZLiteral (JString ''start''), ZLiteral (JString ''stop'')])]"

definition DonateGoldIntentSchema :: schema where
  "DonateGoldIntentSchema =
     ZObject_extend BaseIntentSchema
       [(''type'', ZLiteral (JString ''donate_gold'')), (''recipient'', ID),
        (''gold'', ZNullable ZBigInt)]"

definition DonateTroopIntentSchema :: schema where
  "DonateTroopIntentSchema =
     ZObject_extend BaseIntentSchema
       [(''type'', ZLiteral (JString ''donate_troops'')), (''recipient'', ID),
        (''troops'', ZNullable (ZNumber []))]"

definition BuildUnitIntentSchema :: "SchemaEnv \<Rightarrow> schema" where
  "BuildUnitIntentSchema env =
     ZObject_extend BaseIntentSchema
       [(''type'', ZLiteral (JString ''build_unit'')), (''unit'', ZEnum (UnitType_values env)),
        (''tile'', ZNumber [])]"

definition UpgradeStructureIntentSchema :: "SchemaEnv \<Rightarrow> schema" where
  "UpgradeStructureIntentSchema env =
     ZObject_extend BaseIntentSchema
       [(''type'', ZLiteral (JString ''upgrade_structure'')),
        (''unit'', ZEnum (UnitType_values env)), (''unitId'', ZNumber [])]"

definition CancelAttackIntentSchema :: schema where
  "CancelAttackIntentSchema =
     ZObject_extend BaseIntentSchema
       [(''type'', ZLiteral (JString ''cancel_attack'')), (''attackID'', ZString [])]"

definition CancelBoatIntentSchema :: schema where
  "CancelBoatIntentSchema =
     ZObject_extend BaseIntentSchema
       [(''type'', ZLiteral (JString ''cancel_boat'')), (''unitID'', ZNumber [])]"

definition MoveWarshipIntentSchema :: schema where
  "MoveWarshipIntentSchema =
     ZObject_extend BaseIntentSchema
       [(''type'', ZLiteral (JString ''move_warship'')), (''unitId'', ZNumber []),
        (''tile'', ZNumber [])]"

definition QuickChatIntentSchema :: "SchemaEnv \<Rightarrow> schema" where
  "QuickChatIntentSchema env =
     ZObject_extend BaseIntentSchema
       [(''type'', ZLiteral (JString ''quick_chat'')), (''recipient'', ID),
        (''quickChatKey'', QuickChatKeySchema env), (''target'', ZOptional ID)]"

definition MarkDisconnectedIntentSchema :: schema where
  "MarkDisconnectedIntentSchema =
     ZObject_extend BaseIntentSchema
       [(''type'', ZLiteral (JString ''mark_disconnected'')), (''isDisconnected'', ZBoolean)]"

definition KickPlayerIntentSchema :: schema where
  "KickPlayerIntentSchema =
     ZObject_extend BaseIntentSchema
       [(''type'', ZLiteral (JString ''kick_player'')), (''target'', ID)]"

text \<open>The options of \<open>IntentSchema\<close>, in the order of the source.\<close>

definition intent_variants :: "SchemaEnv \<Rightarrow> schema list" where
  "intent_variants env =
     [AttackIntentSchema, CancelAttackIntentSchema, SpawnIntentSchema env,
      MarkDisconnectedIntentSchema, BoatAttackIntentSchema, CancelBoatIntentSchema,
      AllianceRequestIntentSchema, AllianceRequestReplyIntentSchema,
      BreakAllianceIntentSchema, TargetPlayerIntentSchema, EmojiIntentSchema env,
      DonateGoldIntentSchema, DonateTroopIntentSchema, BuildUnitIntentSchema env,
      UpgradeStructureIntentSchema env, EmbargoIntentSchema, MoveWarshipIntentSchema,
      QuickChatIntentSchema env, AllianceExtensionIntentSchema, KickPlayerIntentSchema]"

definition IntentSchema :: "SchemaEnv \<Rightarrow> schema" where
  "IntentSchema env = ZDiscriminatedUnion ''type'' (intent_variants env)"

definition TurnSchema :: "SchemaEnv \<Rightarrow> schema" where
  "TurnSchema env =
     ZObject
       [(''turnNumber'', ZNumber []), (''intents'', ZArray (IntentSchema env)),
        (''hash'', ZOptional (ZNullable (ZNumber [])))]"

text \<open>The closed set of discriminators, and what \<open>ID\<close> accepts.\<close>

definition intent_types :: "string list" where
  "intent_types =
     [''attack'', ''cancel_attack'', ''spawn'', ''mark_disconnected'', ''boat'', ''cancel_boat'',
      ''allianceRequest'', ''allianceRequestReply'', ''breakAlliance'', ''targetPlayer'',
      ''emoji'', ''donate_gold'', ''donate_troops'', ''build_unit'', ''upgrade_structure'',
      ''embargo'', ''move_warship'', ''quick_chat'', ''allianceExtension'', ''kick_player'']"

definition ID_ok :: "string \<Rightarrow> bool" where
  "ID_ok s = (length s = 8 \<and> (\<forall>c \<in> set s. alnum c))"

text \<open>One key of an object's shape, and acceptance.\<close>

definition parse_field :: "(string \<times> jsval) list \<Rightarrow> string \<times> schema \<Rightarrow> issue + string \<times> jsval" where
  "parse_field kvs ks =
     (case safeParse (snd ks) (get_prop kvs (fst ks)) of Inl e \<Rightarrow> Inl e | Inr r \<Rightarrow> Inr (fst ks, r))"

definition accepts :: "schema \<Rightarrow> jsval \<Rightarrow> bool" where
  "accepts s v = (\<not> isl (safeParse s v))"

text \<open>Example inputs: parameters, an intent of the closed set and one outside it.\<close>

definition env0 :: SchemaEnv where
  "env0 =
     \<lparr> SafeString_matches = (\<lambda>s. \<forall>c \<in> set s. alnum c), countryCodes = [''fr'', ''us''],
       base64url_ok = (\<lambda>s. \<forall>c \<in> set s. alnum c), PatternDecoder_ok = (\<lambda>s. s \<noteq> []),
       quickChatKeys = [''greet.hello''], flattenedEmojiTable_length = 10,
       PlayerType_values = [''HUMAN'', ''BOT''], UnitType_values = [''City'', ''Port''],
       AllPlayers = ''AllPlayers'' \<rparr>"

definition kick_intent :: jsval where
  "kick_intent =
     JObject [(''type'', JString ''kick_player''), (''clientID'', JString ''abcd1234''),
              (''target'', JString ''wxyz5678'')]"

definition unknown_intent :: jsval where
  "unknown_intent =
     JObject [(''type'', JString ''surrender''), (''clientID'', JString ''abcd1234'')]"

section \<open>The spatial unit index and its range queries\<close>

text \<open>
  Modelled from the spec: \<open>UnitGrid\<close> (src/core/game/UnitGrid.ts) is not among the
  sources, only its tests are. The index is a grid of fixed-size buckets, each holding the
  identities of the units located in it. \<open>addUnit\<close> inserts into the bucket computed from
  the unit's current tile; \<open>removeUnit\<close> removes the unit from the bucket that holds it and
  is a silent no-op for a unit that was never indexed; \<open>updateUnitCell\<close> removes from the
  old bucket and re-inserts into the bucket for the unit's new position. \<open>nearbyUnits\<close>
  returns every active unit of one of the requested types whose squared Euclidean distance
  to the tile is at most the squared radius, paired with that squared distance and filtered
  by an optional predicate; \<open>hasUnitNearby\<close> is true iff a unit of the given type and owning
  player lies within the radius. Both visit only the buckets within the iteration radius,
  which is derived from the radius and the bucket size. The bucket size is a parameter. The
  index holds unit identities; the units themselves are read from the store they live in.
\<close>

record UnitGrid =
  cellSize :: nat
  buckets :: "nat \<times> nat \<Rightarrow> nat list"

definition new_UnitGrid :: "nat \<Rightarrow> UnitGrid" where
  "new_UnitGrid cs = \<lparr> cellSize = cs, buckets = (\<lambda>_. []) \<rparr>"

definition getGridCoords :: "GameMap \<Rightarrow> UnitGrid \<Rightarrow> TileRef \<Rightarrow> nat \<times> nat" where
  "getGridCoords gm g t = (map_x gm t div cellSize g, map_y gm t div cellSize g)"

definition UnitGrid_addUnit :: "GameMap \<Rightarrow> UnitView \<Rightarrow> UnitGrid \<Rightarrow> UnitGrid" where
  "UnitGrid_addUnit gm u g =
     (let c = getGridCoords gm g (tile u)
      in g \<lparr> buckets := (buckets g)(c := List.insert (UnitView_id u) (buckets g c)) \<rparr>)"

definition UnitGrid_removeUnit :: "UnitView \<Rightarrow> UnitGrid \<Rightarrow> UnitGrid" where
  "UnitGrid_removeUnit u g = g \<lparr> buckets := (\<lambda>c. removeAll (UnitView_id u) (buckets g c)) \<rparr>"

definition UnitGrid_updateUnitCell :: "GameMap \<Rightarrow> UnitView \<Rightarrow> UnitGrid \<Rightarrow> UnitGrid" where
  "UnitGrid_updateUnitCell gm u g = UnitGrid_addUnit gm u (UnitGrid_removeUnit u g)"

definition indexed :: "UnitGrid \<Rightarrow> nat \<Rightarrow> bool" where
  "indexed g i = (\<exists>c. i \<in> set (buckets g c))"

text \<open>The index as the view's parameter.\<close>

definition UnitGrid_ops :: "GameMap \<Rightarrow> UnitGrid UnitGridOps" where
  "UnitGrid_ops gm =
     \<lparr> addUnit = UnitGrid_addUnit gm, removeUnit = UnitGrid_removeUnit,
       updateUnitCell = UnitGrid_updateUnitCell gm \<rparr>"

definition squaredDistance :: "GameMap \<Rightarrow> TileRef \<Rightarrow> TileRef \<Rightarrow> nat" where
  "squaredDistance gm a b =
     nat ((int (map_x gm a) - int (map_x gm b))\<^sup>2 + (int (map_y gm a) - int (map_y gm b))\<^sup>2)"

definition iterationRadius :: "UnitGrid \<Rightarrow> nat \<Rightarrow> nat" where
  "iterationRadius g r = (r + cellSize g - 1) div cellSize g"

definition getCellsInRange :: "GameMap \<Rightarrow> UnitGrid \<Rightarrow> TileRef \<Rightarrow> nat \<Rightarrow> (nat \<times> nat) list" where
  "getCellsInRange gm g t r =
     (let (gx, gy) = getGridCoords gm g t; k = iterationRadius g r
      in concat (map (\<lambda>cy. map (\<lambda>cx. (cx, cy)) [gx - k ..< gx + k + 1]) [gy - k ..< gy + k + 1]))"

type_synonym UnitPredicate = "UnitView \<times> nat \<Rightarrow> bool"

definition unitsInCells :: "UnitGrid \<Rightarrow> (nat \<rightharpoonup> UnitView) \<Rightarrow> (nat \<times> nat) list \<Rightarrow> UnitView list" where
  "unitsInCells g store cells = concat (map (\<lambda>c. List.map_filter store (buckets g c)) cells)"

definition nearbyUnits ::
  "GameMap \<Rightarrow> UnitGrid \<Rightarrow> (nat \<rightharpoonup> UnitView) \<Rightarrow> TileRef \<Rightarrow> nat \<Rightarrow> UnitType list \<Rightarrow>
   UnitPredicate option \<Rightarrow> (UnitView \<times> nat) list" where
  "nearbyUnits gm g store t searchRange types predicate =
     filter
       (\<lambda>(u, distSquared).
          UnitView_type u \<in> set types \<and> UnitView_isActive u \<and>
          distSquared \<le> searchRange * searchRange \<and>
          (case predicate of None \<Rightarrow> True | Some p \<Rightarrow> p (u, distSquared)))
       (map (\<lambda>u. (u, squaredDistance gm (tile u) t))
          (unitsInCells g store (getCellsInRange gm g t searchRange)))"

definition hasUnitNearby ::
  "GameMap \<Rightarrow> UnitGrid \<Rightarrow> (nat \<rightharpoonup> UnitView) \<Rightarrow> (UnitView \<Rightarrow> PlayerID) \<Rightarrow> TileRef \<Rightarrow> nat \<Rightarrow>
   UnitType \<Rightarrow> PlayerID \<Rightarrow> bool" where
  "hasUnitNearby gm g store owner_id t searchRange ty playerId =
     list_ex
       (\<lambda>u. UnitView_type u = ty \<and> owner_id u = playerId \<and>
            squaredDistance gm (tile u) t \<le> searchRange * searchRange)
       (unitsInCells g store (getCellsInRange gm g t searchRange))"

text \<open>
  The helpers of src/tests/UnitGrid.test.ts: a fresh index on a map 200 tiles wide with
  buckets of 100 tiles, units built at \<open>(unitPosX, 0)\<close> and a query from \<open>(rangeCheck, 0)\<close>.
\<close>

definition test_unit :: "nat \<Rightarrow> UnitType \<Rightarrow> nat \<Rightarrow> UnitView" where
  "test_unit i ty x =
     new_UnitView 0 \<lparr> unit_id = i, unitType = ty, ownerID = 1, pos = x, isActive = True,
                      level = 1, missileTimerQueue = [] \<rparr>"

definition checkRange :: "nat \<Rightarrow> nat \<Rightarrow> nat \<Rightarrow> bool" where
  "checkRange unitPosX rangeCheck searchRange =
     hasUnitNearby gm0 (UnitGrid_addUnit gm0 (test_unit 1 DefensePost unitPosX) (new_UnitGrid 100))
       [1 \<mapsto> test_unit 1 DefensePost unitPosX] (\<lambda>u. ''test_id'') rangeCheck searchRange
       DefensePost ''test_id''"

fun build_units :: "nat \<Rightarrow> nat \<Rightarrow> UnitType list \<Rightarrow> UnitView list" where
  "build_units i x [] = []"
| "build_units i x (ty # tys) = test_unit i ty x # build_units (Suc i) x tys"

definition nearbyUnits_test :: "nat \<Rightarrow> nat \<Rightarrow> nat \<Rightarrow> UnitType list \<Rightarrow> (UnitView \<times> nat) list" where
  "nearbyUnits_test unitPosX rangeCheck searchRange unitTypes =
     nearbyUnits gm0
       (foldl (\<lambda>g u. UnitGrid_addUnit gm0 u g) (new_UnitGrid 100)
          (build_units 1 unitPosX unitTypes))
       (map_of (map (\<lambda>u. (UnitView_id u, u)) (build_units 1 unitPosX unitTypes)))
       rangeCheck searchRange unitTypes None"

section \<open>The interceptor engagement resolver\<close>

text \<open>
  Modelled from the spec: the resolver (\<open>SAMLauncherExecution\<close>) is not among the sources,
  only its tests are. Per interceptor the engagement state is \<open>Idle\<close>, \<open>Engaged\<close> to one
  target or \<open>Cooldown\<close> with the ticks that remain. Each tick, the interceptors are
  evaluated in a fixed order (the order of the list). An idle interceptor scans the
  hostile, active munitions that are within its engagement radius, whose remaining flight
  path still passes through the radius before reaching the target, and that no interceptor
  has claimed; it commits to the nearest by remaining path distance, ties broken by the
  lowest identity. A committed interceptor resolves the engagement on its next evaluation
  (the munition is destroyed unless it has reached its terminal condition first) and enters
  cooldown for the configured duration \<open>SAMCooldown\<close>; a cooling interceptor only
  decrements its timer. The movement and the launch of munitions belong to other systems
  and are an input of every tick: how far each munition advances along its path, and the
  munitions launched. A munition that arrives at its target reaches its terminal
  condition. The engagement radius and the hostility relation are parameters.
\<close>

datatype engagement = Idle | Engaged nat | Cooldown nat

record Interceptor =
  sam_id :: nat
  sam_owner :: nat
  sam_tile :: TileRef
  engagement :: engagement

record Munition =
  nuke_id :: nat
  nuke_owner :: nat
  flightPath :: "TileRef list"
  nuke_active :: bool

record ResolverConfig = Config +
  engagementRadius :: nat
  hostile :: "nat \<Rightarrow> nat \<Rightarrow> bool"

record World =
  interceptors :: "Interceptor list"
  munitions :: "Munition list"

record TickInput =
  launched :: "Munition list"
  moved :: "nat \<Rightarrow> nat"

text \<open>What an interceptor reports, and the configured duration in ticks.\<close>

definition isInCooldown :: "Interceptor \<Rightarrow> bool" where
  "isInCooldown s = (case engagement s of Cooldown _ \<Rightarrow> True | _ \<Rightarrow> False)"

definition cooldownDuration :: "'a ResolverConfig_scheme \<Rightarrow> nat" where
  "cooldownDuration cfg = nat (SAMCooldown cfg)"

text \<open>
  A tile within the engagement radius (boundary included), and a munition whose remaining
  path, after its current position and before its target, has such a tile.
\<close>

definition inRadius :: "GameMap \<Rightarrow> 'a ResolverConfig_scheme \<Rightarrow> Interceptor \<Rightarrow> TileRef \<Rightarrow> bool" where
  "inRadius gm cfg s t =
     (squaredDistance gm t (sam_tile s) \<le> engagementRadius cfg * engagementRadius cfg)"

definition reachable :: "GameMap \<Rightarrow> 'a ResolverConfig_scheme \<Rightarrow> Interceptor \<Rightarrow> Munition \<Rightarrow> bool" where
  "reachable gm cfg s m = list_ex (inRadius gm cfg s) (butlast (tl (flightPath m)))"

text \<open>A tick in which nothing is launched and no munition advances.\<close>

definition quiet :: TickInput where
  "quiet = \<lparr> launched = [], moved = (\<lambda>_. 0) \<rparr>"

definition eligible ::
  "GameMap \<Rightarrow> 'a ResolverConfig_scheme \<Rightarrow> nat list \<Rightarrow> Interceptor \<Rightarrow> Munition \<Rightarrow> bool" where
  "eligible gm cfg claims s m =
     (nuke_active m \<and> hostile cfg (sam_owner s) (nuke_owner m) \<and>
      (case flightPath m of [] \<Rightarrow> False | t # _ \<Rightarrow> inRadius gm cfg s t) \<and>
      reachable gm cfg s m \<and> nuke_id m \<notin> set claims)"

text \<open>The tie-break: shorter remaining path first, then the lower identity.\<close>

definition nearer :: "Munition \<Rightarrow> Munition \<Rightarrow> bool" where
  "nearer a b =
     (length (flightPath a) < length (flightPath b) \<or>
      (length (flightPath a) = length (flightPath b) \<and> nuke_id a < nuke_id b))"

fun nearest :: "Munition list \<Rightarrow> Munition option" where
  "nearest [] = None"
| "nearest (m # ms) =
     (case nearest ms of
        None \<Rightarrow> Some m
      | Some b \<Rightarrow> if nearer b m then Some b else Some m)"

text \<open>The targets that a list of interceptors is committed to.\<close>

definition claims_of :: "Interceptor list \<Rightarrow> nat list" where
  "claims_of ss = concat (map (\<lambda>s. case engagement s of Engaged t \<Rightarrow> [t] | _ \<Rightarrow> []) ss)"

definition enterCooldown :: "'a ResolverConfig_scheme \<Rightarrow> engagement" where
  "enterCooldown cfg = (if cooldownDuration cfg = 0 then Idle else Cooldown (cooldownDuration cfg))"

definition destroy :: "nat \<Rightarrow> Munition list \<Rightarrow> Munition list" where
  "destroy t ms = map (\<lambda>m. if nuke_id m = t then m \<lparr> nuke_active := False \<rparr> else m) ms"

text \<open>One interceptor's evaluation, given the claims of all the others.\<close>

definition sam_step ::
  "GameMap \<Rightarrow> 'a ResolverConfig_scheme \<Rightarrow> nat list \<Rightarrow> Munition list \<Rightarrow> Interceptor \<Rightarrow>
   Interceptor \<times> Munition list" where
  "sam_step gm cfg claims ms s =
     (case engagement s of
        Cooldown n \<Rightarrow> (s \<lparr> engagement := (if n \<le> 1 then Idle else Cooldown (n - 1)) \<rparr>, ms)
      | Engaged t \<Rightarrow> (s \<lparr> engagement := enterCooldown cfg \<rparr>, destroy t ms)
      | Idle \<Rightarrow>
          (case nearest (filter (eligible gm cfg claims s) ms) of
             None \<Rightarrow> (s, ms)
           | Some m \<Rightarrow> (s \<lparr> engagement := Engaged (nuke_id m) \<rparr>, ms)))"

text \<open>
  The evaluation of all interceptors in order: \<open>fin\<close> holds those already evaluated this
  tick, whose claims the later ones must skip.
\<close>

fun resolve ::
  "GameMap \<Rightarrow> 'a ResolverConfig_scheme \<Rightarrow> Interceptor list \<Rightarrow> Interceptor list \<Rightarrow> Munition list \<Rightarrow>
   Interceptor list \<times> Munition list" where
  "resolve gm cfg fin [] ms = (fin, ms)"
| "resolve gm cfg fin (s # todo) ms =
     (let (s', ms') = sam_step gm cfg (claims_of (fin @ todo)) ms s
      in resolve gm cfg (fin @ [s']) todo ms')"

text \<open>A munition advances \<open>n\<close> tiles, or arrives at its target.\<close>

definition advance :: "nat \<Rightarrow> Munition \<Rightarrow> Munition" where
  "advance n m =
     (if \<not> nuke_active m then m
      else if n < length (flightPath m) - 1 then m \<lparr> flightPath := drop n (flightPath m) \<rparr>
      else m \<lparr> flightPath := drop (length (flightPath m) - 1) (flightPath m),
               nuke_active := False \<rparr>)"

definition tick_world :: "GameMap \<Rightarrow> 'a ResolverConfig_scheme \<Rightarrow> TickInput \<Rightarrow> World \<Rightarrow> World" where
  "tick_world gm cfg inp w =
     (let ms = map (\<lambda>m. advance (moved inp (nuke_id m)) m) (munitions w) @ launched inp;
          (ss, ms') = resolve gm cfg [] (interceptors w) ms
      in \<lparr> interceptors = ss, munitions = ms' \<rparr>)"

fun run_ticks :: "GameMap \<Rightarrow> 'a ResolverConfig_scheme \<Rightarrow> World \<Rightarrow> TickInput list \<Rightarrow> World" where
  "run_ticks gm cfg w [] = w"
| "run_ticks gm cfg w (inp # inps) = run_ticks gm cfg (tick_world gm cfg inp w) inps"

definition unreachableFrom ::
  "GameMap \<Rightarrow> 'a ResolverConfig_scheme \<Rightarrow> Interceptor \<Rightarrow> Munition list \<Rightarrow> bool" where
  "unreachableFrom gm cfg s ms = (\<forall>m \<in> set ms. \<not> reachable gm cfg s m)"

text \<open>
  Example worlds on the map of the tests, with the launchers and trajectories of
  src/unnamed/part_000: two launchers and one munition in range of both; one launcher and
  two munitions; a launcher of radius 1 and a munition on its tile whose remaining path
  leaves the radius; a launcher that has committed.
\<close>

definition ref :: "nat \<Rightarrow> nat \<Rightarrow> TileRef" where
  "ref x y = y * 200 + x"

definition resolver_cfg :: "nat \<Rightarrow> int \<Rightarrow> ResolverConfig" where
  "resolver_cfg r d =
     \<lparr> SAMCooldown = d, SiloCooldown = d, engagementRadius = r, hostile = (\<lambda>a b. a \<noteq> b) \<rparr>"

definition sam_at :: "nat \<Rightarrow> TileRef \<Rightarrow> engagement \<Rightarrow> Interceptor" where
  "sam_at i t e = \<lparr> sam_id = i, sam_owner = 1, sam_tile = t, engagement = e \<rparr>"

definition nuke :: "nat \<Rightarrow> TileRef list \<Rightarrow> Munition" where
  "nuke i p = \<lparr> nuke_id = i, nuke_owner = 4, flightPath = p, nuke_active = True \<rparr>"

definition two_sams :: World where
  "two_sams =
     \<lparr> interceptors = [sam_at 1 (ref 1 1) Idle, sam_at 2 (ref 1 2) Idle],
       munitions = [nuke 9 [ref 1 1, ref 1 2, ref 1 3]] \<rparr>"

definition passing_by :: World where
  "passing_by =
     \<lparr> interceptors = [sam_at 1 (ref 1 1) Idle],
       munitions = [nuke 9 [ref 1 1, ref 3 1, ref 5 1]] \<rparr>"

definition engaged_sam :: World where
  "engaged_sam =
     \<lparr> interceptors = [sam_at 1 (ref 1 1) (Engaged 9)],
       munitions = [nuke 9 [ref 1 1, ref 2 1, ref 3 1]] \<rparr>"

definition one_sam_two_nukes :: World where
  "one_sam_two_nukes =
     \<lparr> interceptors = [sam_at 1 (ref 1 1) Idle],
       munitions = [nuke 8 [ref 1 1, ref 2 1, ref 3 1], nuke 9 [ref 1 1, ref 1 2, ref 1 3]] \<rparr>"

definition one_sam_one_nuke :: World where
  "one_sam_one_nuke =
     \<lparr> interceptors = [sam_at 1 (ref 1 1) Idle],
       munitions = [nuke 9 [ref 1 1, ref 2 1, ref 3 1]] \<rparr>"

section \<open>Properties of the client world view\<close>

subsection \<open>Identity resolution\<close>

lemma smallIDToID_apply_UnitUpdate [simp]:
  "smallIDToID (apply_UnitUpdate grid gv upd) = smallIDToID gv"
  by (simp add: apply_UnitUpdate_def Let_def split: option.splits prod.splits)

lemma smallIDToID_foldl_UnitUpdate [simp]:
  "smallIDToID (foldl (apply_UnitUpdate grid) gv us) = smallIDToID gv"
  by (induction us arbitrary: gv) simp_all






text \<open>A registered small-id resolves to the player's mirror.\<close>

lemma playerBySmallID_registered_example:
  "playerBySmallID (run_updates id_index gm0 gv0 [gu_players]) 1
     = Inr (Player \<lparr> pdata = pu1 \<rparr>)"
  by (simp add: playerBySmallID_def update_def gv0_def new_GameView_def gu_players_def
      apply_PlayerUpdate_def player_def pu1_def)

text \<open>
  C10. \<open>hasPlayer\<close> answers false for every view and every player id, also for an id
  whose mirror \<open>player\<close> returns: it does not reflect the player table.
\<close>

theorem hasPlayer_always_false:
  "\<not> hasPlayer gv pid \<and>
   player (run_updates id_index gm0 gv0 [gu_players]) ''p1'' = Inr \<lparr> pdata = pu1 \<rparr> \<and>
   \<not> hasPlayer (run_updates id_index gm0 gv0 [gu_players]) ''p1''"
  by (simp add: hasPlayer_def update_def gv0_def new_GameView_def gu_players_def
      apply_PlayerUpdate_def player_def pu1_def)

subsection \<open>Unit reconciliation and the deletion of destroyed units\<close>

lemma UnitView_id_simps [simp]:
  "UnitView_id (UnitView_update upd u0) = unit_id upd"
  "UnitView_id (new_UnitView now upd) = unit_id upd"
  by (simp_all add: UnitView_id_def UnitView_update_def new_UnitView_def)


















lemma foldl_PlayerUpdate_units [simp]:
  "units_map (foldl apply_PlayerUpdate gv pus) = units_map gv"
  "unitGrid (foldl apply_PlayerUpdate gv pus) = unitGrid gv"
  "toDelete (foldl apply_PlayerUpdate gv pus) = toDelete gv"
  by (induction pus arbitrary: gv) (simp_all add: apply_PlayerUpdate_def)


lemmas view_eval =
  update_def gv0_def new_GameView_def id_index_def gu_units_def unit7_def apply_UnitUpdate_def
  Let_def ticks_def new_UnitView_def UnitView_update_def UnitView_isActive_def UnitView_id_def
  gm0_def tile_def lastTile_def reset_UnitView_def unit_def units_def




subsection \<open>Missile readiness\<close>

lemma missileReadinesss_no_reloading:
  "missileTimerQueue (data u) = [] \<Longrightarrow> missileReadinesss cfg now u = Fin 1"
  by (simp add: missileReadinesss_def)

lemma foldl_readiness:
  assumes "m \<noteq> 0" and "cd \<noteq> 0"
  shows "foldl (\<lambda>readiness cooldown.
                  let cooldownProgress = now - cooldown;
                      cooldownRatio = js_div (num cooldownProgress) (num cd);
                      adjusted = js_div cooldownRatio (num m)
                  in js_add readiness adjusted) (Fin a) q
         = Fin (a + (\<Sum>c\<leftarrow>q. of_int (now - c) / of_int cd / of_int m))"
  using assms by (induction q arbitrary: a) (simp_all add: num_def Let_def add.assoc)

lemma sum_list_bounds:
  fixes f :: "int \<Rightarrow> rat"
  assumes "\<forall>c \<in> set q. 0 \<le> f c \<and> f c \<le> b"
  shows "0 \<le> (\<Sum>c\<leftarrow>q. f c) \<and> (\<Sum>c\<leftarrow>q. f c) \<le> of_nat (length q) * b"
  using assms by (induction q) (auto simp: algebra_simps add_mono)

text \<open>
  The readiness is within [0, 1] when no more charges reload than the unit has, the
  cooldown duration is positive and every queued timestamp lies within the cooldown
  window that ends at the current tick.
\<close>

lemma missileReadinesss_fresh_timers:
  assumes lvl: "int (length (missileTimerQueue (data u))) \<le> level (data u)"
    and cd: "0 < (if unitType (data u) = SAMLauncher then SAMCooldown cfg else SiloCooldown cfg)"
    and fresh: "\<forall>c \<in> set (missileTimerQueue (data u)).
        0 \<le> now - c \<and>
        now - c \<le> (if unitType (data u) = SAMLauncher then SAMCooldown cfg else SiloCooldown cfg)"
  shows "in_unit_interval (missileReadinesss cfg now u)"
proof (cases "missileTimerQueue (data u) = []")
  case True
  then show ?thesis by (simp add: missileReadinesss_def)
next
  case False
  define q where "q = missileTimerQueue (data u)"
  define m where "m = level (data u)"
  define cd where
    "cd = (if unitType (data u) = SAMLauncher then SAMCooldown cfg else SiloCooldown cfg)"
  have n: "0 < length q" using False by (simp add: q_def)
  have m2: "int (length q) \<le> m" using lvl by (simp add: q_def m_def)
  have m1: "0 < m" using m2 n by linarith
  have cdpos: "0 < cd" using cd by (simp add: cd_def)
  let ?f = "\<lambda>c. (of_int (now - c) :: rat) / of_int cd / of_int m"
  have "\<forall>c \<in> set q. 0 \<le> ?f c \<and> ?f c \<le> 1 / of_int m"
  proof
    fix c assume "c \<in> set q"
    then have b: "0 \<le> now - c" "now - c \<le> cd" using fresh by (simp_all add: q_def cd_def)
    define x :: rat where "x = of_int (now - c) / of_int cd"
    have x: "0 \<le> x" "x \<le> 1" using b cdpos by (simp_all add: x_def)
    have mp: "(0::rat) < of_int m" using m1 by simp
    have "0 \<le> x / of_int m" using x(1) mp by simp
    moreover have "x / of_int m \<le> 1 / of_int m"
      using x(2) mp by (simp add: divide_right_mono)
    ultimately show "0 \<le> ?f c \<and> ?f c \<le> 1 / of_int m"
      unfolding x_def by blast
  qed
  from sum_list_bounds [OF this]
  have s: "0 \<le> (\<Sum>c\<leftarrow>q. ?f c)" "(\<Sum>c\<leftarrow>q. ?f c) \<le> of_nat (length q) * (1 / of_int m)"
    by simp_all
  have val: "missileReadinesss cfg now u =
      (if m - int (length q) = 0 \<and> 1 < m then Fin 0
       else Fin (of_int (m - int (length q)) / of_int m + (\<Sum>c\<leftarrow>q. ?f c)))"
    using n m1 cdpos foldl_readiness [of m cd now _ q]
    by (simp add: missileReadinesss_def Let_def q_def [symmetric] m_def [symmetric]
        cd_def [symmetric] num_def)
  have lo: "0 \<le> (of_int (m - int (length q)) :: rat) / of_int m" using m1 m2 by simp
  have "(of_int (m - int (length q)) :: rat) / of_int m + of_nat (length q) * (1 / of_int m) = 1"
    using m1 by (simp add: field_simps)
  with s lo show ?thesis
    unfolding val by auto
qed

text \<open>
  C6. The readiness is documented as a value from 0 to 1, but nothing clamps it: for a
  level-2 launcher whose one reloading charge was queued at tick 0, in a view whose current
  tick is 150 with a cooldown of 75 ticks, \<open>missileReadinesss\<close> returns 1.5.
\<close>

theorem missileReadinesss_exceeds_one:
  "map_option (missileReadinesss cfg75 (ticks gv_stale)) (unit gv_stale 7) = Some (Fin (3 / 2)) \<and>
   \<not> in_unit_interval (Fin (3 / 2))"
  by (simp add: gv_stale_def view_eval missileReadinesss_def cfg75_def num_def)

section \<open>Properties of the schemas\<close>

lemmas variant_defs =
  AttackIntentSchema_def CancelAttackIntentSchema_def SpawnIntentSchema_def
  MarkDisconnectedIntentSchema_def BoatAttackIntentSchema_def CancelBoatIntentSchema_def
  AllianceRequestIntentSchema_def AllianceRequestReplyIntentSchema_def
  BreakAllianceIntentSchema_def TargetPlayerIntentSchema_def EmojiIntentSchema_def
  DonateGoldIntentSchema_def DonateTroopIntentSchema_def BuildUnitIntentSchema_def
  UpgradeStructureIntentSchema_def EmbargoIntentSchema_def MoveWarshipIntentSchema_def
  QuickChatIntentSchema_def AllianceExtensionIntentSchema_def KickPlayerIntentSchema_def


lemma variant_shape:
  "s \<in> set (intent_variants env) \<Longrightarrow>
   \<exists>t rest. s = ZObject ((''clientID'', ID) # (''type'', ZLiteral (JString t)) # rest) \<and>
            t \<in> set intent_types"
  unfolding intent_variants_def
  apply (simp only: set_simps insert_iff empty_iff)
  apply (elim disjE)
  apply (simp_all add: variant_defs BaseIntentSchema_def intent_types_def)
  done

lemma safeParse_ID:
  "safeParse ID v = Inr r \<Longrightarrow> r = v \<and> (\<exists>cid. v = JString cid \<and> ID_ok cid)"
  by (cases v)
    (auto simp: ID_def ID_ok_def regex_def str_length_def split: if_splits option.splits)

lemma collect_Cons_Inr:
  "collect (r # rs) = Inr out \<Longrightarrow> \<exists>x xs. r = Inr x \<and> collect rs = Inr xs \<and> out = x # xs"
  by (cases r) (auto split: sum.splits)

lemma safeParse_ZObject:
  "safeParse (ZObject shape) v = Inr out \<longleftrightarrow>
   (\<exists>kvs out0. v = JObject kvs \<and> collect (map (parse_field kvs) shape) = Inr out0 \<and>
      out = JObject (filter (\<lambda>(k, r). r \<noteq> JUndefined \<or> k \<in> fst ` set kvs) out0))"
  by (cases v) (auto simp: parse_field_def [abs_def] split: sum.splits)

lemma parse_field_Inr:
  "parse_field kvs (k, s) = Inr x \<longleftrightarrow> (\<exists>r. safeParse s (get_prop kvs k) = Inr r \<and> x = (k, r))"
  by (auto simp: parse_field_def split: sum.splits)

lemma intent_variant_parse:
  assumes "safeParse (ZObject ((''clientID'', ID) # (''type'', ZLiteral (JString t)) # rest)) v = Inr out"
  shows "\<exists>kvs kvs' cid. v = JObject kvs \<and> out = JObject kvs' \<and>
           get_prop kvs ''clientID'' = JString cid \<and> get_prop kvs ''type'' = JString t \<and>
           get_prop kvs' ''clientID'' = JString cid \<and> ID_ok cid \<and> get_prop kvs' ''type'' = JString t"
proof -
  from assms obtain kvs out0 where v: "v = JObject kvs"
    and c: "collect (parse_field kvs (''clientID'', ID) #
              parse_field kvs (''type'', ZLiteral (JString t)) # map (parse_field kvs) rest) = Inr out0"
    and out: "out = JObject (filter (\<lambda>(k, r). r \<noteq> JUndefined \<or> k \<in> fst ` set kvs) out0)"
    unfolding safeParse_ZObject by auto
  from collect_Cons_Inr [OF c] obtain x1 xs1 where
    x1: "parse_field kvs (''clientID'', ID) = Inr x1"
    and c1: "collect (parse_field kvs (''type'', ZLiteral (JString t)) # map (parse_field kvs) rest) = Inr xs1"
    and o1: "out0 = x1 # xs1" by blast
  from collect_Cons_Inr [OF c1] obtain x2 xs2 where
    x2: "parse_field kvs (''type'', ZLiteral (JString t)) = Inr x2" and o2: "xs1 = x2 # xs2" by blast
  from x1 obtain r1 where r1: "safeParse ID (get_prop kvs ''clientID'') = Inr r1" "x1 = (''clientID'', r1)"
    unfolding parse_field_Inr by blast
  from safeParse_ID [OF r1(1)] obtain cid where cid: "get_prop kvs ''clientID'' = JString cid"
     "r1 = JString cid" "ID_ok cid" by auto
  from x2 have ty: "get_prop kvs ''type'' = JString t" "x2 = (''type'', JString t)"
    unfolding parse_field_Inr by (auto split: if_splits)
  show ?thesis
    using v out o1 o2 r1(2) cid ty by (simp add: get_prop_def)
qed

lemma find_map_pair:
  "find (\<lambda>sr. P (fst sr)) (map (\<lambda>s. (s, f s)) opts) = map_option (\<lambda>s. (s, f s)) (find P opts)"
  by (induction opts) auto

lemma safeParse_ZDiscriminatedUnion:
  "safeParse (ZDiscriminatedUnion d opts) (JObject kvs) =
     (case find (\<lambda>s. discriminator_of d s = Some (get_prop kvs d)) opts of
        Some s \<Rightarrow> safeParse s (JObject kvs) | None \<Rightarrow> Inl invalid_union)"
  by (simp add: find_map_pair [of "\<lambda>s. discriminator_of d s = Some (get_prop kvs d)"]
      split: option.splits)

lemma safeParse_ZDiscriminatedUnion_other:
  "\<forall>kvs. v \<noteq> JObject kvs \<Longrightarrow> safeParse (ZDiscriminatedUnion d opts) v = Inl invalid_type"
  by (cases v) simp_all

declare safeParse.simps(12) [simp del]

lemma safeParse_ZDiscriminatedUnion_Inr:
  assumes "safeParse (ZDiscriminatedUnion d opts) v = Inr out"
  shows "\<exists>s \<in> set opts. safeParse s v = Inr out"
proof (cases "\<exists>kvs. v = JObject kvs")
  case True
  then obtain kvs where v: "v = JObject kvs" by blast
  with assms obtain s where "find (\<lambda>s. discriminator_of d s = Some (get_prop kvs d)) opts = Some s"
    "safeParse s v = Inr out"
    unfolding v safeParse_ZDiscriminatedUnion by (auto split: option.splits)
  then show ?thesis by (auto simp: find_Some_iff)
next
  case False
  with assms show ?thesis by (simp add: safeParse_ZDiscriminatedUnion_other)
qed

lemma collect_ok: "(\<exists>out. collect rs = Inr out) \<longleftrightarrow> (\<forall>r \<in> set rs. \<not> isl r)"
proof (induction rs)
  case Nil
  show ?case by simp
next
  case (Cons r rs)
  then show ?case by (cases r) (auto split: sum.splits)
qed

lemma not_isl_iff: "\<not> isl r \<longleftrightarrow> (\<exists>x. r = Inr x)"
  by (cases r) simp_all

lemma accepts_iff: "accepts s v \<longleftrightarrow> (\<exists>out. safeParse s v = Inr out)"
  by (simp add: accepts_def not_isl_iff)

lemma isl_parse_field:
  "isl (parse_field kvs ks) \<longleftrightarrow> \<not> accepts (snd ks) (get_prop kvs (fst ks))"
  by (auto simp: parse_field_def accepts_def split: sum.splits)

lemma accepts_ZObject:
  "accepts (ZObject shape) v \<longleftrightarrow>
   (\<exists>kvs. v = JObject kvs \<and> (\<forall>ks \<in> set shape. accepts (snd ks) (get_prop kvs (fst ks))))"
proof -
  have "accepts (ZObject shape) v \<longleftrightarrow>
      (\<exists>kvs. v = JObject kvs \<and> (\<exists>out0. collect (map (parse_field kvs) shape) = Inr out0))"
    unfolding accepts_iff safeParse_ZObject by blast
  also have "\<dots> \<longleftrightarrow> (\<exists>kvs. v = JObject kvs \<and> (\<forall>ks \<in> set shape. accepts (snd ks) (get_prop kvs (fst ks))))"
    unfolding collect_ok by (auto simp: isl_parse_field)
  finally show ?thesis .
qed

lemma accepts_ZArray:
  "accepts (ZArray s) v \<longleftrightarrow> (\<exists>xs. v = JArray xs \<and> (\<forall>x \<in> set xs. accepts s x))"
proof -
  have "accepts (ZArray s) v \<longleftrightarrow> (\<exists>xs. v = JArray xs \<and> (\<exists>ys. collect (map (safeParse s) xs) = Inr ys))"
    unfolding accepts_iff by (cases v) (auto split: sum.splits)
  then show ?thesis
    unfolding collect_ok by (auto simp: accepts_def)
qed

lemma accepts_ZNumber_any: "accepts (ZNumber []) v \<longleftrightarrow> (\<exists>n. v = JNumber (Fin n))"
  by (cases v) (auto simp: accepts_def split: number.splits)

lemma accepts_ZOptional: "accepts (ZOptional s) v \<longleftrightarrow> v = JUndefined \<or> accepts s v"
  by (simp add: accepts_def)

lemma accepts_ZNullable: "accepts (ZNullable s) v \<longleftrightarrow> v = JNull \<or> accepts s v"
  by (simp add: accepts_def)

lemma kick_ok: "safeParse (IntentSchema env0) kick_intent =
     Inr (JObject [(''clientID'', JString ''abcd1234''), (''type'', JString ''kick_player''),
              (''target'', JString ''wxyz5678'')])"
  by (simp add: IntentSchema_def safeParse_ZDiscriminatedUnion kick_intent_def intent_variants_def
      variant_defs BaseIntentSchema_def get_prop_def ID_def regex_def str_length_def alnum_def)

text \<open>
  C7. Whatever \<open>IntentSchema\<close> accepts is an object that carries the issuing client's
  identity (a \<open>clientID\<close> that \<open>ID\<close> accepts) next to a \<open>type\<close> discriminator of the closed
  set, in the input and in the parsed output alike. A candidate whose discriminator is not
  one of the closed set, or that is no object at all, yields a validation error: there is
  no default or fallback variant.
\<close>

theorem IntentSchema_closed:
  "(safeParse (IntentSchema env) v = Inr out \<longrightarrow>
      (\<exists>kvs kvs' cid t. v = JObject kvs \<and> out = JObject kvs' \<and> ID_ok cid \<and> t \<in> set intent_types \<and>
         get_prop kvs ''clientID'' = JString cid \<and> get_prop kvs ''type'' = JString t \<and>
         get_prop kvs' ''clientID'' = JString cid \<and> get_prop kvs' ''type'' = JString t)) \<and>
   ((\<forall>kvs. v = JObject kvs \<longrightarrow> get_prop kvs ''type'' \<notin> JString ` set intent_types) \<longrightarrow>
      safeParse (IntentSchema env) v = Inl (if \<exists>kvs. v = JObject kvs then invalid_union else invalid_type))"
proof (intro conjI impI)
  assume "safeParse (IntentSchema env) v = Inr out"
  then obtain s where s: "s \<in> set (intent_variants env)" "safeParse s v = Inr out"
    unfolding IntentSchema_def using safeParse_ZDiscriminatedUnion_Inr by blast
  from variant_shape [OF s(1)] obtain t rest where
    t: "s = ZObject ((''clientID'', ID) # (''type'', ZLiteral (JString t)) # rest)" "t \<in> set intent_types"
    by blast
  from intent_variant_parse [OF s(2) [unfolded t(1)]] t(2) show
    "\<exists>kvs kvs' cid t. v = JObject kvs \<and> out = JObject kvs' \<and> ID_ok cid \<and> t \<in> set intent_types \<and>
         get_prop kvs ''clientID'' = JString cid \<and> get_prop kvs ''type'' = JString t \<and>
         get_prop kvs' ''clientID'' = JString cid \<and> get_prop kvs' ''type'' = JString t"
    by blast
next
  assume a: "\<forall>kvs. v = JObject kvs \<longrightarrow> get_prop kvs ''type'' \<notin> JString ` set intent_types"
  show "safeParse (IntentSchema env) v = Inl (if \<exists>kvs. v = JObject kvs then invalid_union else invalid_type)"
  proof (cases "\<exists>kvs. v = JObject kvs")
    case True
    then obtain kvs where v: "v = JObject kvs" by blast
    have "\<not> discriminator_of ''type'' s = Some (get_prop kvs ''type'')"
      if "s \<in> set (intent_variants env)" for s
    proof -
      from variant_shape [OF that] obtain t rest where
        t: "s = ZObject ((''clientID'', ID) # (''type'', ZLiteral (JString t)) # rest)"
           "t \<in> set intent_types"
        by blast
      then have "discriminator_of ''type'' s = Some (JString t)" by simp
      moreover have "get_prop kvs ''type'' \<noteq> JString t" using a v t(2) by blast
      ultimately show ?thesis by simp
    qed
    then have "find (\<lambda>s. discriminator_of ''type'' s = Some (get_prop kvs ''type''))
        (intent_variants env) = None"
      by (simp add: find_None_iff)
    then show ?thesis
      unfolding IntentSchema_def v safeParse_ZDiscriminatedUnion by simp
  next
    case False
    then show ?thesis
      by (simp add: IntentSchema_def safeParse_ZDiscriminatedUnion_other)
  qed
qed

theorem IntentSchema_closed_witness:
  "(\<exists>out. safeParse (IntentSchema env0) kick_intent = Inr (JObject out) \<and>
          get_prop out ''clientID'' = JString ''abcd1234'' \<and>
          get_prop out ''type'' = JString ''kick_player'') \<and>
   safeParse (IntentSchema env0) unknown_intent = Inl invalid_union"
  using IntentSchema_closed [of env0 unknown_intent undefined]
    IntentSchema_closed [of env0 kick_intent
      "JObject [(''clientID'', JString ''abcd1234''), (''type'', JString ''kick_player''),
                (''target'', JString ''wxyz5678'')]"]
  by (simp add: unknown_intent_def get_prop_def intent_types_def kick_ok)

lemma half_not_int: "odd k \<Longrightarrow> (of_int k / 2 :: rat) \<notin> \<int>"
proof
  assume k: "odd k" and "(of_int k / 2 :: rat) \<in> \<int>"
  then obtain i :: int where "(of_int k / 2 :: rat) = of_int i" by (auto elim: Ints_cases)
  then have "(of_int k :: rat) = of_int (2 * i)" by simp
  then have "k = 2 * i" by (simp only: of_int_eq_iff)
  with k show False by simp
qed

text \<open>
  C8, as stated, fails: \<open>turnNumber\<close> and \<open>hash\<close> are \<open>z.number()\<close> without \<open>.int()\<close>, and
  \<open>TurnSchema\<close> accepts a turn whose \<open>turnNumber\<close> is 1.5 and whose \<open>hash\<close> is 0.5.
\<close>

theorem TurnSchema_fraction_accepted:
  "accepts (TurnSchema env0)
     (JObject [(''turnNumber'', JNumber (Fin (3 / 2))), (''intents'', JArray []),
               (''hash'', JNumber (Fin (1 / 2)))]) \<and>
   (3 / 2 :: rat) \<notin> \<int> \<and> (1 / 2 :: rat) \<notin> \<int>"
  using half_not_int [of 3] half_not_int [of 1]
  by (simp add: accepts_def TurnSchema_def get_prop_def)

text \<open>
  C8, amended. \<open>TurnSchema\<close> accepts exactly the objects whose \<open>turnNumber\<close> is a finite
  number, whose \<open>intents\<close> is an array of values that \<open>IntentSchema\<close> accepts, and whose
  \<open>hash\<close> is omitted, null or a finite number; the numbers need not be integers.
\<close>

theorem TurnSchema_accepts:
  "accepts (TurnSchema env) v \<longleftrightarrow>
   (\<exists>kvs. v = JObject kvs \<and>
      (\<exists>n. get_prop kvs ''turnNumber'' = JNumber (Fin n)) \<and>
      (\<exists>xs. get_prop kvs ''intents'' = JArray xs \<and> (\<forall>x \<in> set xs. accepts (IntentSchema env) x)) \<and>
      (get_prop kvs ''hash'' = JUndefined \<or> get_prop kvs ''hash'' = JNull \<or>
       (\<exists>h. get_prop kvs ''hash'' = JNumber (Fin h))))"
  by (simp add: TurnSchema_def accepts_ZObject accepts_ZArray accepts_ZNumber_any
      accepts_ZOptional accepts_ZNullable)

theorem TurnSchema_accepts_witness:
  "accepts (TurnSchema env0)
     (JObject [(''turnNumber'', JNumber (Fin 7)), (''intents'', JArray [kick_intent])]) \<and>
   \<not> accepts (TurnSchema env0)
     (JObject [(''turnNumber'', JString ''7''), (''intents'', JArray [kick_intent])])"
  using TurnSchema_accepts [of env0 "JObject [(''turnNumber'', JNumber (Fin 7)), (''intents'', JArray [kick_intent])]"]
    TurnSchema_accepts [of env0 "JObject [(''turnNumber'', JString ''7''), (''intents'', JArray [kick_intent])]"]
  by (simp add: get_prop_def accepts_iff kick_ok)

section \<open>Properties of the range queries\<close>

lemma set_buckets_addUnit:
  "set (buckets (UnitGrid_addUnit gm u g) c) =
     (if c = getGridCoords gm g (tile u) then insert (UnitView_id u) (set (buckets g c))
      else set (buckets g c))"
  by (simp add: UnitGrid_addUnit_def Let_def)

lemma indexed_addUnit: "indexed (UnitGrid_addUnit gm u g) i \<longleftrightarrow> i = UnitView_id u \<or> indexed g i"
  unfolding indexed_def set_buckets_addUnit by (metis insert_iff)

lemma indexed_removeUnit: "indexed (UnitGrid_removeUnit u g) i \<longleftrightarrow> i \<noteq> UnitView_id u \<and> indexed g i"
  by (auto simp: indexed_def UnitGrid_removeUnit_def)

lemma indexed_updateUnitCell:
  "indexed (UnitGrid_updateUnitCell gm u g) i \<longleftrightarrow> i = UnitView_id u \<or> indexed g i"
  by (auto simp: UnitGrid_updateUnitCell_def indexed_addUnit indexed_removeUnit)

text \<open>The grid of buckets keeps the contract that the view relies on.\<close>

lemma UnitGrid_contract: "index_contract (UnitGrid_ops gm) indexed"
  by (simp add: index_contract_def UnitGrid_ops_def indexed_addUnit indexed_removeUnit
      indexed_updateUnitCell)

lemma set_map_filter: "set (List.map_filter f xs) = {y. \<exists>x \<in> set xs. f x = Some y}"
  by (induction xs) (auto simp: List.map_filter_simps split: option.splits)

lemma set_unitsInCells:
  "set (unitsInCells g store cells) = {u. \<exists>c \<in> set cells. \<exists>i \<in> set (buckets g c). store i = Some u}"
  by (auto simp: unitsInCells_def set_map_filter)

lemma div_window:
  fixes a b r cs :: nat
  assumes "0 < cs" and "a \<le> b + r" and "b \<le> a + r"
  shows "b div cs - (r + cs - 1) div cs \<le> a div cs \<and> a div cs < b div cs + (r + cs - 1) div cs + 1"
proof -
  define k where "k = (r + cs - 1) div cs"
  have "r + cs - 1 < cs + (r + cs - 1) div cs * cs"
    by (rule dividend_less_div_times [OF assms(1)])
  then have rk: "r \<le> k * cs"
    unfolding k_def using assms(1) by linarith
  have "a div cs \<le> (b + k * cs) div cs" using assms(2) rk by (intro div_le_mono) simp
  then have up: "a div cs \<le> b div cs + k" using assms(1) by simp
  have "b div cs \<le> (a + k * cs) div cs" using assms(3) rk by (intro div_le_mono) simp
  then have lo: "b div cs \<le> a div cs + k" using assms(1) by simp
  from up lo show ?thesis unfolding k_def by linarith
qed

lemma sq_le_imp:
  fixes a b :: nat
  assumes "(int a - int b)\<^sup>2 \<le> int (r * r)"
  shows "a \<le> b + r \<and> b \<le> a + r"
proof -
  have "\<bar>int a - int b\<bar> \<le> int r"
  proof (rule ccontr)
    assume "\<not> \<bar>int a - int b\<bar> \<le> int r"
    then have "int r < \<bar>int a - int b\<bar>" by simp
    then have "int r * int r < \<bar>int a - int b\<bar> * \<bar>int a - int b\<bar>"
      by (intro mult_strict_mono) simp_all
    then show False using assms by (simp add: power2_eq_square)
  qed
  then show ?thesis by linarith
qed

lemma in_grid_product:
  "(cx, cy) \<in> set (concat (map (\<lambda>cy. map (\<lambda>cx. (cx, cy)) xs) ys)) \<longleftrightarrow> cx \<in> set xs \<and> cy \<in> set ys"
  by auto

lemma in_getCellsInRange:
  "(cx, cy) \<in> set (getCellsInRange gm g t r) \<longleftrightarrow>
   map_x gm t div cellSize g - iterationRadius g r \<le> cx \<and>
   cx < map_x gm t div cellSize g + iterationRadius g r + 1 \<and>
   map_y gm t div cellSize g - iterationRadius g r \<le> cy \<and>
   cy < map_y gm t div cellSize g + iterationRadius g r + 1"
  unfolding getCellsInRange_def getGridCoords_def Let_def prod.case in_grid_product set_upt
    atLeastLessThan_iff
  by blast

lemma in_range_cell:
  assumes cs: "0 < cellSize g" and d: "squaredDistance gm a t \<le> r * r"
  shows "getGridCoords gm g a \<in> set (getCellsInRange gm g t r)"
proof -
  let ?dx = "(int (map_x gm a) - int (map_x gm t))\<^sup>2"
  let ?dy = "(int (map_y gm a) - int (map_y gm t))\<^sup>2"
  have s: "?dx + ?dy \<le> int (r * r)" using d unfolding squaredDistance_def by linarith
  have "?dx \<le> int (r * r)" "?dy \<le> int (r * r)"
    using s zero_le_power2 [of "int (map_x gm a) - int (map_x gm t)"]
      zero_le_power2 [of "int (map_y gm a) - int (map_y gm t)"] by linarith+
  from sq_le_imp [OF this(1)] sq_le_imp [OF this(2)]
  have x: "map_x gm a \<le> map_x gm t + r" "map_x gm t \<le> map_x gm a + r"
    and y: "map_y gm a \<le> map_y gm t + r" "map_y gm t \<le> map_y gm a + r" by simp_all
  show ?thesis
    unfolding getGridCoords_def in_getCellsInRange iterationRadius_def
    using div_window [OF cs x] div_window [OF cs y] by blast
qed

lemma nearbyUnits_iff:
  "(u, d) \<in> set (nearbyUnits gm g store t r types predicate) \<longleftrightarrow>
   (\<exists>c \<in> set (getCellsInRange gm g t r). \<exists>i \<in> set (buckets g c). store i = Some u) \<and>
   UnitView_type u \<in> set types \<and> UnitView_isActive u \<and> d = squaredDistance gm (tile u) t \<and>
   d \<le> r * r \<and> (case predicate of None \<Rightarrow> True | Some p \<Rightarrow> p (u, d))"
  by (auto simp: nearbyUnits_def set_unitsInCells)

lemma hasUnitNearby_iff:
  "hasUnitNearby gm g store owner_id t r ty playerId \<longleftrightarrow>
   (\<exists>c \<in> set (getCellsInRange gm g t r). \<exists>i \<in> set (buckets g c). \<exists>u. store i = Some u \<and>
      UnitView_type u = ty \<and> owner_id u = playerId \<and> squaredDistance gm (tile u) t \<le> r * r)"
  by (auto simp: hasUnitNearby_def list_ex_iff set_unitsInCells)

lemmas grid_eval =
  checkRange_def nearbyUnits_test_def hasUnitNearby_def nearbyUnits_def unitsInCells_def
  getCellsInRange_def getGridCoords_def iterationRadius_def UnitGrid_addUnit_def new_UnitGrid_def
  test_unit_def new_UnitView_def tile_def UnitView_id_def UnitView_type_def UnitView_isActive_def
  squaredDistance_def gm0_def Let_def List.map_filter_simps

lemma square_less: "(r'::nat) < r \<Longrightarrow> r' * r' < r * r"
  by (simp add: mult_strict_mono')

text \<open>The cases of the test file hold of the model.\<close>

lemma hasUnitCases:
  "checkRange 0 0 10" "checkRange 0 10 10" "\<not> checkRange 0 11 10"
  "checkRange 0 42 198" "\<not> checkRange 0 199 198"
  by (simp_all add: grid_eval)

lemma unitsInRangeCases:
  "length (nearbyUnits_test 0 0 10 [Warship]) = 1"
  "length (nearbyUnits_test 0 0 10 [City, Port]) = 2"
  "length (nearbyUnits_test 0 0 10 []) = 0"
  "length (nearbyUnits_test 0 10 10 [City]) = 1"
  "length (nearbyUnits_test 0 11 10 [DefensePost]) = 0"
  "length (nearbyUnits_test 0 42 198 [TradeShip]) = 1"
  "length (nearbyUnits_test 0 199 198 [TransportShip]) = 0"
  by (simp_all add: grid_eval)


lemma indexed_after_addUnit:
  "UnitView_id u \<in>
     set (buckets (UnitGrid_addUnit gm u g) (getGridCoords gm (UnitGrid_addUnit gm u g) (tile u)))"
  by (simp add: UnitGrid_addUnit_def getGridCoords_def Let_def)

text \<open>
  C4. A unit that is indexed in the bucket of its tile, at squared distance exactly \<open>r\<^sup>2\<close>
  from the query tile, is returned by \<open>nearbyUnits\<close> with radius \<open>r\<close>, paired with its
  squared distance, and makes \<open>hasUnitNearby\<close> with radius \<open>r\<close> true; with a radius
  strictly smaller \<open>nearbyUnits\<close> does not return it and, when no unit stands elsewhere,
  \<open>hasUnitNearby\<close> is false. Every pair returned carries the squared distance of its unit.
\<close>

theorem range_inclusive:
  assumes "0 < cellSize g"
    and "store (UnitView_id u) = Some u"
    and "UnitView_id u \<in> set (buckets g (getGridCoords gm g (tile u)))"
    and "UnitView_isActive u" and "UnitView_type u \<in> set types"
    and "squaredDistance gm (tile u) q = r * r"
  shows "(u, r * r) \<in> set (nearbyUnits gm g store q r types None) \<and>
         hasUnitNearby gm g store owner_id q r (UnitView_type u) (owner_id u) \<and>
         (\<forall>r' < r. u \<notin> fst ` set (nearbyUnits gm g store q r' types predicate)) \<and>
         (\<forall>r' < r. (\<forall>i v. store i = Some v \<longrightarrow> tile v = tile u) \<longrightarrow>
                   \<not> hasUnitNearby gm g store owner_id q r' ty playerId) \<and>
         (\<forall>(v, d) \<in> set (nearbyUnits gm g store q r'' types predicate).
            d = squaredDistance gm (tile v) q)"
proof -
  have cell: "getGridCoords gm g (tile u) \<in> set (getCellsInRange gm g q r)"
    using assms(1,6) by (intro in_range_cell) simp_all
  have 1: "(u, r * r) \<in> set (nearbyUnits gm g store q r types None)"
    unfolding nearbyUnits_iff using cell assms(2-6) by (simp, blast)
  have 2: "hasUnitNearby gm g store owner_id q r (UnitView_type u) (owner_id u)"
    unfolding hasUnitNearby_iff
    by (rule bexI [OF _ cell], rule bexI [OF _ assms(3)], rule exI [of _ u])
      (simp add: assms(2,6))
  have 3: "u \<notin> fst ` set (nearbyUnits gm g store q r' types predicate)" if "r' < r" for r'
  proof
    assume "u \<in> fst ` set (nearbyUnits gm g store q r' types predicate)"
    then obtain d where "(u, d) \<in> set (nearbyUnits gm g store q r' types predicate)" by force
    then have "squaredDistance gm (tile u) q \<le> r' * r'"
      unfolding nearbyUnits_iff by simp
    with square_less [OF that] assms(6) show False by simp
  qed
  have 4: "\<not> hasUnitNearby gm g store owner_id q r' ty playerId"
    if "r' < r" "\<forall>i v. store i = Some v \<longrightarrow> tile v = tile u" for r'
  proof
    assume "hasUnitNearby gm g store owner_id q r' ty playerId"
    then obtain i v where "store i = Some v" "squaredDistance gm (tile v) q \<le> r' * r'"
      unfolding hasUnitNearby_iff by blast
    with that(2) have "squaredDistance gm (tile u) q \<le> r' * r'" by metis
    with square_less [OF that(1)] assms(6) show False by simp
  qed
  have 5: "\<forall>(v, d) \<in> set (nearbyUnits gm g store q r'' types predicate).
      d = squaredDistance gm (tile v) q"
  proof (intro ballI, clarify)
    fix v d assume "(v, d) \<in> set (nearbyUnits gm g store q r'' types predicate)"
    then show "d = squaredDistance gm (tile v) q"
      unfolding nearbyUnits_iff by simp
  qed
  from 1 2 3 4 5 show ?thesis by blast
qed

theorem range_inclusive_witness:
  "checkRange 0 10 10 \<and> \<not> checkRange 0 10 9 \<and>
   (test_unit 1 DefensePost 0, 100) \<in> set (nearbyUnits_test 0 10 10 [DefensePost])"
  using range_inclusive [of "UnitGrid_addUnit gm0 (test_unit 1 DefensePost 0) (new_UnitGrid 100)"
      "[1 \<mapsto> test_unit 1 DefensePost 0]" "test_unit 1 DefensePost 0" gm0 "[DefensePost]" 10 10
      "\<lambda>u. ''test_id''" None DefensePost "''test_id''" 10]
    indexed_after_addUnit [of "test_unit 1 DefensePost 0" gm0 "new_UnitGrid 100"]
  by (simp add: checkRange_def nearbyUnits_test_def test_unit_def new_UnitView_def UnitView_id_def
      UnitView_type_def UnitView_isActive_def tile_def squaredDistance_def gm0_def
      new_UnitGrid_def UnitGrid_addUnit_def)

section \<open>Properties of the interceptor engagement resolver\<close>

lemma claims_of_simps [simp]:
  "claims_of [] = []"
  "claims_of (s # ss) = (case engagement s of Engaged t \<Rightarrow> [t] | _ \<Rightarrow> []) @ claims_of ss"
  "claims_of (xs @ ys) = claims_of xs @ claims_of ys"
  by (simp_all add: claims_of_def)

lemma nearest_in: "nearest ms = Some m \<Longrightarrow> m \<in> set ms"
  by (induction ms arbitrary: m) (auto split: option.splits if_splits)



lemma sam_step_Cooldown:
  "engagement s = Cooldown n \<Longrightarrow>
   engagement (fst (sam_step gm cfg cl ms s)) = (if n \<le> 1 then Idle else Cooldown (n - 1))"
  by (simp add: sam_step_def)

lemma sam_step_Engaged:
  "engagement s = Engaged t \<Longrightarrow> engagement (fst (sam_step gm cfg cl ms s)) = enterCooldown cfg"
  by (simp add: sam_step_def)





lemma resolve_length [simp]:
  "length (fst (resolve gm cfg fin todo ms)) = length fin + length todo"
  by (induction todo arbitrary: fin ms) (simp_all add: Let_def split: prod.splits)

lemma resolve_prefix:
  "j < length fin \<Longrightarrow> fst (resolve gm cfg fin todo ms) ! j = fin ! j"
  by (induction todo arbitrary: fin ms) (simp_all add: Let_def nth_append split: prod.splits)

lemma resolve_rel:
  assumes step: "\<And>cl ms s. P ms \<Longrightarrow>
      Q s (fst (sam_step gm cfg cl ms s)) \<and> P (snd (sam_step gm cfg cl ms s))"
    and "P ms"
  shows "(\<forall>j < length todo. Q (todo ! j) (fst (resolve gm cfg fin todo ms) ! (length fin + j)))
         \<and> P (snd (resolve gm cfg fin todo ms))"
  using assms(2)
proof (induction todo arbitrary: fin ms)
  case Nil
  then show ?case by simp
next
  case (Cons s todo)
  obtain s' ms' where st: "sam_step gm cfg (claims_of (fin @ todo)) ms s = (s', ms')"
    by (cases "sam_step gm cfg (claims_of (fin @ todo)) ms s")
  from step [where ms = ms and cl = "claims_of (fin @ todo)" and s = s, OF Cons.prems] st
  have q: "Q s s'" and p: "P ms'" by simp_all
  note IH = Cons.IH [OF p, of "fin @ [s']"]
  have res: "resolve gm cfg fin (s # todo) ms = resolve gm cfg (fin @ [s']) todo ms'"
    using st by simp
  show ?case
  proof (intro conjI allI impI)
    fix j assume j: "j < length (s # todo)"
    show "Q ((s # todo) ! j) (fst (resolve gm cfg fin (s # todo) ms) ! (length fin + j))"
    proof (cases j)
      case 0
      then show ?thesis
        using q resolve_prefix [of "length fin" "fin @ [s']" gm cfg todo ms'] res by simp
    next
      case (Suc j')
      then show ?thesis using IH j res by simp
    qed
  next
    show "P (snd (resolve gm cfg fin (s # todo) ms))" using IH res by simp
  qed
qed

lemma tick_world_rel:
  assumes step: "\<And>cl ms s. P ms \<Longrightarrow>
      Q s (fst (sam_step gm cfg cl ms s)) \<and> P (snd (sam_step gm cfg cl ms s))"
    and "P (map (\<lambda>m. advance (moved inp (nuke_id m)) m) (munitions w) @ launched inp)"
  shows "length (interceptors (tick_world gm cfg inp w)) = length (interceptors w) \<and>
         (\<forall>j < length (interceptors w).
            Q (interceptors w ! j) (interceptors (tick_world gm cfg inp w) ! j)) \<and>
         P (munitions (tick_world gm cfg inp w))"
proof -
  let ?ms = "map (\<lambda>m. advance (moved inp (nuke_id m)) m) (munitions w) @ launched inp"
  have eq: "interceptors (tick_world gm cfg inp w) = fst (resolve gm cfg [] (interceptors w) ?ms)"
       "munitions (tick_world gm cfg inp w) = snd (resolve gm cfg [] (interceptors w) ?ms)"
    by (simp_all add: tick_world_def Let_def split: prod.splits)
  from resolve_rel [where P = P and Q = Q and fin = "[]" and todo = "interceptors w", OF step assms(2)]
  show ?thesis unfolding eq by simp
qed

subsection \<open>Cooldown\<close>

lemma tick_world_length [simp]:
  "length (interceptors (tick_world gm cfg inp w)) = length (interceptors w)"
proof -
  have "interceptors (tick_world gm cfg inp w) =
      fst (resolve gm cfg [] (interceptors w)
             (map (\<lambda>m. advance (moved inp (nuke_id m)) m) (munitions w) @ launched inp))"
    by (simp add: tick_world_def Let_def split: prod.splits)
  then show ?thesis by simp
qed

lemma run_ticks_length [simp]:
  "length (interceptors (run_ticks gm cfg w inps)) = length (interceptors w)"
  by (induction inps arbitrary: w) simp_all

lemma tick_world_Cooldown:
  assumes "j < length (interceptors w)" and "engagement (interceptors w ! j) = Cooldown n"
  shows "engagement (interceptors (tick_world gm cfg inp w) ! j)
         = (if n \<le> 1 then Idle else Cooldown (n - 1))"
proof -
  let ?Q = "\<lambda>s s'. \<forall>n. engagement s = Cooldown n \<longrightarrow>
                 engagement s' = (if n \<le> 1 then Idle else Cooldown (n - 1))"
  have step: "?Q s (fst (sam_step gm cfg cl ms s)) \<and> True" if "True" for cl ms s
    by (simp add: sam_step_Cooldown)
  have "True" ..
  from tick_world_rel [where P = "\<lambda>_. True" and Q = ?Q and gm = gm and cfg = cfg and inp = inp
      and w = w, OF step this] assms
  show ?thesis by blast
qed

lemma tick_world_Engaged:
  assumes "j < length (interceptors w)" and "engagement (interceptors w ! j) = Engaged t"
  shows "engagement (interceptors (tick_world gm cfg inp w) ! j) = enterCooldown cfg"
proof -
  let ?Q = "\<lambda>s s'. \<forall>t. engagement s = Engaged t \<longrightarrow> engagement s' = enterCooldown cfg"
  have step: "?Q s (fst (sam_step gm cfg cl ms s)) \<and> True" if "True" for cl ms s
    by (simp add: sam_step_Engaged)
  have "True" ..
  from tick_world_rel [where P = "\<lambda>_. True" and Q = ?Q and gm = gm and cfg = cfg and inp = inp
      and w = w, OF step this] assms
  show ?thesis by blast
qed

lemma run_ticks_Cooldown:
  assumes "j < length (interceptors w)" and "engagement (interceptors w ! j) = Cooldown n"
    and "0 < n" and "length inps \<le> n"
  shows "engagement (interceptors (run_ticks gm cfg w inps) ! j)
         = (if length inps = n then Idle else Cooldown (n - length inps))"
  using assms
proof (induction inps arbitrary: w n)
  case Nil
  then show ?case by simp
next
  case (Cons inp inps)
  let ?w = "tick_world gm cfg inp w"
  have st: "engagement (interceptors ?w ! j) = (if n \<le> 1 then Idle else Cooldown (n - 1))"
    using Cons.prems(1,2) by (rule tick_world_Cooldown)
  show ?case
  proof (cases "n \<le> 1")
    case True
    have "Suc (length inps) \<le> n" using Cons.prems(4) by simp
    with True Cons.prems(3) have "length inps = 0" and n: "n = 1" by linarith+
    then have "inps = []" by simp
    with st n show ?thesis by simp
  next
    case False
    then have "engagement (interceptors ?w ! j) = Cooldown (n - 1)" "0 < n - 1"
      "length inps \<le> n - 1"
      using st Cons.prems(4) by simp_all
    from Cons.IH [OF _ this] Cons.prems(1)
    have "engagement (interceptors (run_ticks gm cfg ?w inps) ! j)
          = (if length inps = n - 1 then Idle else Cooldown (n - 1 - length inps))"
      by simp
    moreover have "(length inps = n - 1) = (length (inp # inps) = n)"
      using False by auto
    moreover have "n - 1 - length inps = n - length (inp # inps)" by simp
    ultimately show ?thesis by (simp only: run_ticks.simps)
  qed
qed

text \<open>
  C3. An interceptor that resolves its engagement in a tick reports being in cooldown
  after that tick and after each of the following ticks up to the configured duration
  \<open>SAMCooldown\<close>, the remaining time decreasing by one per tick, and reports not being in
  cooldown once that many further ticks have run. Until then its state is \<open>Cooldown\<close>,
  never \<open>Engaged\<close>, whatever munitions the ticks launch or move.
\<close>

theorem cooldown_enforcement:
  assumes "j < length (interceptors w)" and "engagement (interceptors w ! j) = Engaged t"
    and "0 < SAMCooldown cfg"
  shows "(length inps < cooldownDuration cfg \<longrightarrow>
            isInCooldown (interceptors (run_ticks gm cfg (tick_world gm cfg inp w) inps) ! j) \<and>
            engagement (interceptors (run_ticks gm cfg (tick_world gm cfg inp w) inps) ! j)
              = Cooldown (cooldownDuration cfg - length inps)) \<and>
         (length inps = cooldownDuration cfg \<longrightarrow>
            \<not> isInCooldown (interceptors (run_ticks gm cfg (tick_world gm cfg inp w) inps) ! j) \<and>
            engagement (interceptors (run_ticks gm cfg (tick_world gm cfg inp w) inps) ! j) = Idle)"
proof -
  let ?w = "tick_world gm cfg inp w"
  have d: "0 < cooldownDuration cfg" using assms(3) by (simp add: cooldownDuration_def)
  then have "engagement (interceptors ?w ! j) = Cooldown (cooldownDuration cfg)"
    using tick_world_Engaged [OF assms(1,2), of gm cfg inp] by (simp add: enterCooldown_def)
  have run: "length inps \<le> cooldownDuration cfg \<Longrightarrow>
      engagement (interceptors (run_ticks gm cfg ?w inps) ! j)
      = (if length inps = cooldownDuration cfg then Idle
         else Cooldown (cooldownDuration cfg - length inps))"
    using run_ticks_Cooldown [OF _ \<open>engagement (interceptors ?w ! j) = Cooldown (cooldownDuration cfg)\<close> d,
        of inps gm cfg] assms(1) by simp
  show ?thesis
  proof (intro conjI impI)
    assume l: "length inps < cooldownDuration cfg"
    then show "engagement (interceptors (run_ticks gm cfg ?w inps) ! j)
        = Cooldown (cooldownDuration cfg - length inps)"
      using run by simp
    then show "isInCooldown (interceptors (run_ticks gm cfg ?w inps) ! j)"
      by (simp add: isInCooldown_def)
  next
    assume l: "length inps = cooldownDuration cfg"
    then show "engagement (interceptors (run_ticks gm cfg ?w inps) ! j) = Idle"
      using run by simp
    then show "\<not> isInCooldown (interceptors (run_ticks gm cfg ?w inps) ! j)"
      by (simp add: isInCooldown_def)
  qed
qed

theorem cooldown_enforcement_witness:
  "isInCooldown (interceptors
      (run_ticks gm0 (resolver_cfg 70 3) (tick_world gm0 (resolver_cfg 70 3) quiet engaged_sam)
         [quiet, quiet]) ! 0) \<and>
   \<not> isInCooldown (interceptors
      (run_ticks gm0 (resolver_cfg 70 3) (tick_world gm0 (resolver_cfg 70 3) quiet engaged_sam)
         [quiet, quiet, quiet]) ! 0)"
  using cooldown_enforcement [of 0 engaged_sam 9 "resolver_cfg 70 3" "[quiet, quiet]" gm0 quiet]
    cooldown_enforcement [of 0 engaged_sam 9 "resolver_cfg 70 3" "[quiet, quiet, quiet]" gm0 quiet]
  by (simp add: engaged_sam_def sam_at_def resolver_cfg_def cooldownDuration_def)

subsection \<open>Reachability\<close>










lemmas resolver_eval =
  two_sams_def passing_by_def engaged_sam_def sam_at_def nuke_def ref_def resolver_cfg_def
  eligible_def reachable_def inRadius_def squaredDistance_def gm0_def unreachableFrom_def



subsection \<open>At most one target\<close>

lemma claims_of_sam_step:
  "claims_of [fst (sam_step gm cfg cl ms s)] = [] \<or>
   (\<exists>t. claims_of [fst (sam_step gm cfg cl ms s)] = [t] \<and> t \<notin> set cl)"
proof (cases "engagement s")
  case Idle
  show ?thesis
  proof (cases "nearest (filter (eligible gm cfg cl s) ms)")
    case None
    with Idle show ?thesis by (simp add: sam_step_def)
  next
    case (Some m)
    from nearest_in [OF this] have "nuke_id m \<notin> set cl" by (simp add: eligible_def)
    with Idle Some show ?thesis by (simp add: sam_step_def)
  qed
next
  case (Engaged t)
  then show ?thesis by (simp add: sam_step_def enterCooldown_def)
next
  case (Cooldown n)
  then show ?thesis by (simp add: sam_step_def)
qed

lemma resolve_distinct:
  "distinct (claims_of (fin @ todo)) \<Longrightarrow>
   distinct (claims_of (fst (resolve gm cfg fin todo ms)))"
proof (induction todo arbitrary: fin ms)
  case Nil
  then show ?case by simp
next
  case (Cons s todo)
  obtain s' ms' where st: "sam_step gm cfg (claims_of (fin @ todo)) ms s = (s', ms')"
    by (cases "sam_step gm cfg (claims_of (fin @ todo)) ms s")
  have others: "distinct (claims_of (fin @ todo))"
    using Cons.prems by (auto split: engagement.splits)
  from claims_of_sam_step [of gm cfg "claims_of (fin @ todo)" ms s] st
  have "claims_of [s'] = [] \<or> (\<exists>t. claims_of [s'] = [t] \<and> t \<notin> set (claims_of (fin @ todo)))"
    by simp
  moreover have "claims_of ((fin @ [s']) @ todo) = claims_of fin @ claims_of [s'] @ claims_of todo"
    by (simp only: claims_of_simps(3) append_assoc)
  moreover have "distinct (claims_of fin @ claims_of todo)"
    using others by (simp only: claims_of_simps(3))
  ultimately have "distinct (claims_of ((fin @ [s']) @ todo))"
    by (auto simp del: claims_of_simps(2))
  from Cons.IH [OF this, of ms'] st show ?case by simp
qed

lemma tick_world_distinct:
  "distinct (claims_of (interceptors w)) \<Longrightarrow>
   distinct (claims_of (interceptors (tick_world gm cfg inp w)))"
proof -
  assume d: "distinct (claims_of (interceptors w))"
  have "interceptors (tick_world gm cfg inp w) =
      fst (resolve gm cfg [] (interceptors w)
             (map (\<lambda>m. advance (moved inp (nuke_id m)) m) (munitions w) @ launched inp))"
    by (simp add: tick_world_def Let_def split: prod.splits)
  with resolve_distinct [of "[]" "interceptors w" gm cfg] d show ?thesis by simp
qed

lemma run_ticks_distinct:
  "distinct (claims_of (interceptors w)) \<Longrightarrow>
   distinct (claims_of (interceptors (run_ticks gm cfg w inps)))"
  by (induction inps arbitrary: w) (simp_all add: tick_world_distinct)

lemma distinct_claims_nth:
  assumes "distinct (claims_of ss)" and "i < j" and "j < length ss"
    and "engagement (ss ! i) = Engaged t"
  shows "engagement (ss ! j) \<noteq> Engaged t"
  using assms
proof (induction ss arbitrary: i j)
  case Nil
  then show ?case by simp
next
  case (Cons s ss)
  obtain j' where j': "j = Suc j'" using Cons.prems(2) by (cases j) simp_all
  have claimed: "engagement x = Engaged t \<Longrightarrow> t \<in> set (claims_of ss)" if "x \<in> set ss" for x
    using that by (induction ss) (auto split: engagement.splits)
  show ?case
  proof (cases i)
    case 0
    with Cons.prems have "t \<notin> set (claims_of ss)" by simp
    with claimed [of "ss ! j'"] Cons.prems(3) j' show ?thesis by auto
  next
    case (Suc i')
    with Cons.prems j' Cons.IH [of i' j'] show ?thesis
      by (auto split: engagement.splits)
  qed
qed

lemma eligible_path: "eligible gm cfg cl s m \<Longrightarrow> 0 < length (flightPath m) - 1"
  by (cases "flightPath m") (auto simp: eligible_def reachable_def)

lemma advance_quiet: "eligible gm cfg cl s m \<Longrightarrow> advance 0 m = m"
  using eligible_path [of gm cfg cl s m] by (simp add: advance_def eligible_def)

lemma two_interceptors:
  assumes w: "interceptors w = [s1, s2]" "munitions w = [m]"
    and idle: "engagement s1 = Idle" "engagement s2 = Idle"
    and e1: "eligible gm cfg [] s1 m" and e2: "eligible gm cfg [] s2 m"
    and d: "0 < SAMCooldown cfg"
  shows "map engagement (interceptors (tick_world gm cfg quiet w)) = [Engaged (nuke_id m), Idle]"
    and "map engagement (interceptors (run_ticks gm cfg w [quiet, quiet]))
           = [Cooldown (cooldownDuration cfg), Idle]"
    and "map nuke_active (munitions (run_ticks gm cfg w [quiet, quiet])) = [False]"
proof -
  have adv: "advance 0 m = m" using e1 by (rule advance_quiet)
  have not2: "\<not> eligible gm cfg [nuke_id m] s2 m" by (simp add: eligible_def)
  have t1: "tick_world gm cfg quiet w =
      \<lparr> interceptors = [s1 \<lparr> engagement := Engaged (nuke_id m) \<rparr>, s2], munitions = [m] \<rparr>"
    using w idle e1 not2 adv by (simp add: tick_world_def quiet_def sam_step_def)
  show "map engagement (interceptors (tick_world gm cfg quiet w)) = [Engaged (nuke_id m), Idle]"
    unfolding t1 using idle by simp
  have dead: "\<not> eligible gm cfg cl s2 (m \<lparr> nuke_active := False \<rparr>)" for cl
    by (simp add: eligible_def)
  have dpos: "cooldownDuration cfg \<noteq> 0" using d by (simp add: cooldownDuration_def)
  have "run_ticks gm cfg w [quiet, quiet] = tick_world gm cfg quiet (tick_world gm cfg quiet w)"
    by simp
  also have "\<dots> = tick_world gm cfg quiet
      \<lparr> interceptors = [s1 \<lparr> engagement := Engaged (nuke_id m) \<rparr>, s2], munitions = [m] \<rparr>"
    by (simp only: t1)
  also have "\<dots> =
      \<lparr> interceptors = [s1 \<lparr> engagement := Cooldown (cooldownDuration cfg) \<rparr>, s2],
        munitions = [m \<lparr> nuke_active := False \<rparr>] \<rparr>"
    using idle dead adv dpos
    by (simp add: tick_world_def quiet_def sam_step_def enterCooldown_def destroy_def)
  finally have t2: "run_ticks gm cfg w [quiet, quiet] =
      \<lparr> interceptors = [s1 \<lparr> engagement := Cooldown (cooldownDuration cfg) \<rparr>, s2],
        munitions = [m \<lparr> nuke_active := False \<rparr>] \<rparr>" .
  show "map engagement (interceptors (run_ticks gm cfg w [quiet, quiet]))
           = [Cooldown (cooldownDuration cfg), Idle]"
    unfolding t2 using idle by simp
  show "map nuke_active (munitions (run_ticks gm cfg w [quiet, quiet])) = [False]"
    unfolding t2 by simp
qed

text \<open>
  C1. An interceptor holds at most one committed target, and when no munition is the
  committed target of two interceptors, this stays so through every tick. When two idle
  interceptors both have the same eligible munition in range, the first in the evaluation
  order commits and the second skips the claimed target; one tick later the first is in
  cooldown, the second is still idle and the munition is destroyed.
\<close>

theorem at_most_one_target:
  "length (claims_of [s]) \<le> 1 \<and>
   (distinct (claims_of (interceptors w)) \<longrightarrow>
      distinct (claims_of (interceptors (run_ticks gm cfg w inps))) \<and>
      (\<forall>i j t. i < j \<and> j < length (interceptors w) \<and>
         engagement (interceptors (run_ticks gm cfg w inps) ! i) = Engaged t \<longrightarrow>
         engagement (interceptors (run_ticks gm cfg w inps) ! j) \<noteq> Engaged t)) \<and>
   (interceptors w2 = [s1, s2] \<and> munitions w2 = [m] \<and> engagement s1 = Idle \<and>
    engagement s2 = Idle \<and> eligible gm cfg [] s1 m \<and> eligible gm cfg [] s2 m \<and>
    0 < SAMCooldown cfg \<longrightarrow>
      map engagement (interceptors (tick_world gm cfg quiet w2)) = [Engaged (nuke_id m), Idle] \<and>
      map engagement (interceptors (run_ticks gm cfg w2 [quiet, quiet]))
        = [Cooldown (cooldownDuration cfg), Idle] \<and>
      map nuke_active (munitions (run_ticks gm cfg w2 [quiet, quiet])) = [False])"
proof (intro conjI impI allI)
  show "length (claims_of [s]) \<le> 1" by (simp split: engagement.splits)
next
  assume d: "distinct (claims_of (interceptors w))"
  then show r: "distinct (claims_of (interceptors (run_ticks gm cfg w inps)))"
    by (rule run_ticks_distinct)
  fix i j t
  assume "i < j \<and> j < length (interceptors w) \<and>
         engagement (interceptors (run_ticks gm cfg w inps) ! i) = Engaged t"
  then show "engagement (interceptors (run_ticks gm cfg w inps) ! j) \<noteq> Engaged t"
    using distinct_claims_nth [OF r, of i j t] by simp
next
  assume a: "interceptors w2 = [s1, s2] \<and> munitions w2 = [m] \<and> engagement s1 = Idle \<and>
    engagement s2 = Idle \<and> eligible gm cfg [] s1 m \<and> eligible gm cfg [] s2 m \<and>
    0 < SAMCooldown cfg"
  then show "map engagement (interceptors (tick_world gm cfg quiet w2)) = [Engaged (nuke_id m), Idle]"
    "map engagement (interceptors (run_ticks gm cfg w2 [quiet, quiet]))
        = [Cooldown (cooldownDuration cfg), Idle]"
    "map nuke_active (munitions (run_ticks gm cfg w2 [quiet, quiet])) = [False]"
    using two_interceptors [of w2 s1 s2 m gm cfg] by simp_all
qed

theorem at_most_one_target_witness:
  "map engagement (interceptors (tick_world gm0 (resolver_cfg 70 75) quiet two_sams))
     = [Engaged 9, Idle] \<and>
   map engagement (interceptors (run_ticks gm0 (resolver_cfg 70 75) two_sams [quiet, quiet]))
     = [Cooldown 75, Idle] \<and>
   distinct (claims_of (interceptors (run_ticks gm0 (resolver_cfg 70 75) two_sams [quiet, quiet, quiet])))"
  using at_most_one_target [of undefined two_sams gm0 "resolver_cfg 70 75" "[quiet, quiet, quiet]"
      two_sams "sam_at 1 (ref 1 1) Idle" "sam_at 2 (ref 1 2) Idle" "nuke 9 [ref 1 1, ref 1 2, ref 1 3]"]
  by (simp add: resolver_eval cooldownDuration_def)

text \<open>
  The test ``sam should only get one nuke at a time'': one launcher, two munitions in
  range; after three ticks one munition is destroyed and the launcher is in cooldown.
\<close>

lemmas tick_eval =
  tick_world_def sam_step_def advance_def quiet_def nearer_def enterCooldown_def destroy_def
  cooldownDuration_def Let_def

lemma one_nuke_at_a_time:
  "map nuke_active (munitions (run_ticks gm0 (resolver_cfg 70 75) one_sam_two_nukes [quiet, quiet, quiet]))
     = [False, True] \<and>
   map engagement (interceptors (run_ticks gm0 (resolver_cfg 70 75) one_sam_two_nukes [quiet, quiet, quiet]))
     = [Cooldown 74]"
  by (simp add: one_sam_two_nukes_def resolver_eval tick_eval)

text \<open>
  The test ``sam should cooldown as long as configured'': the munition is destroyed within
  three ticks; with a cooldown of 75 the launcher then reports cooldown after each tick up
  to the 76th and no longer after the 77th.
\<close>

lemma run_ticks_append:
  "run_ticks gm cfg w (xs @ ys) = run_ticks gm cfg (run_ticks gm cfg w xs) ys"
  by (induction xs arbitrary: w) simp_all

lemma one_sam_one_nuke_resolved:
  "run_ticks gm0 (resolver_cfg 70 75) one_sam_one_nuke [quiet, quiet] =
     \<lparr> interceptors = [sam_at 1 (ref 1 1) (Cooldown 75)],
       munitions = [(nuke 9 [ref 1 1, ref 2 1, ref 3 1]) \<lparr> nuke_active := False \<rparr>] \<rparr>"
  by (simp add: one_sam_one_nuke_def resolver_eval tick_eval)

lemma sam_cooldown_test:
  assumes "k \<le> 75"
  shows "isInCooldown (interceptors (run_ticks gm0 (resolver_cfg 70 75) one_sam_one_nuke
            ([quiet, quiet] @ replicate k quiet)) ! 0) \<longleftrightarrow> k < 75"
proof -
  let ?w = "run_ticks gm0 (resolver_cfg 70 75) one_sam_one_nuke [quiet, quiet]"
  have "engagement (interceptors ?w ! 0) = Cooldown 75" "0 < length (interceptors ?w)"
    unfolding one_sam_one_nuke_resolved by (simp_all add: sam_at_def)
  from run_ticks_Cooldown [OF this(2,1), of "replicate k quiet" gm0 "resolver_cfg 70 75"] assms
  show ?thesis
    unfolding run_ticks_append by (simp add: isInCooldown_def)
qed

end
